theory Spec2Isabelle
  imports Complex_Main "HOL-Library.Log_Nat"
begin

section \<open>JavaScript objects used as dictionaries\<close>

text \<open>
  The state document keeps its per-call bookkeeping in plain JavaScript objects keyed by
  call id. \<open>Object.keys\<close> lists the own properties of such an object in property
  order: keys that are array indices (canonical decimal numerals below \<open>2^32 - 1\<close>) come
  first, in ascending numeric order, then every other string key in the order in which
  it was first assigned. An object is therefore an association list kept in that order.
  Keys are taken to be ordinary property names (the special name \<open>__proto__\<close> is not
  modelled).
\<close>

type_synonym 'v js_object = "(string \<times> 'v) list"

definition is_digit :: "char \<Rightarrow> bool" where
  "is_digit c = (48 \<le> (of_char c :: nat) \<and> (of_char c :: nat) \<le> 57)"

definition digits_val :: "string \<Rightarrow> nat" where
  "digits_val k = foldl (\<lambda>acc c. 10 * acc + ((of_char c :: nat) - 48)) 0 k"

definition array_index :: "string \<Rightarrow> nat option" where
  "array_index k =
     (if k \<noteq> [] \<and> list_all is_digit k \<and> (k = ''0'' \<or> hd k \<noteq> CHR ''0'')
         \<and> digits_val k < 4294967295
      then Some (digits_val k) else None)"

definition obj_get :: "'v js_object \<Rightarrow> string \<Rightarrow> 'v option" where
  "obj_get obj k = map_of obj k"

definition obj_keys :: "'v js_object \<Rightarrow> string list" where
  "obj_keys obj = map fst obj"

definition obj_values :: "'v js_object \<Rightarrow> 'v list" where
  "obj_values obj = map snd obj"

definition hasOwnProperty :: "'v js_object \<Rightarrow> string \<Rightarrow> bool" where
  "hasOwnProperty obj k = (k \<in> set (obj_keys obj))"

fun insert_index :: "nat \<Rightarrow> string \<Rightarrow> 'v \<Rightarrow> 'v js_object \<Rightarrow> 'v js_object" where
  "insert_index n k v [] = [(k, v)]"
| "insert_index n k v ((k', v') # rest) =
     (case array_index k' of
        Some m \<Rightarrow> if m < n then (k', v') # insert_index n k v rest
                  else (k, v) # (k', v') # rest
      | None \<Rightarrow> (k, v) # (k', v') # rest)"

text \<open>\<open>obj[k] = v\<close>: an existing property keeps its place, a new one is placed by the
  property order.\<close>

definition obj_set :: "'v js_object \<Rightarrow> string \<Rightarrow> 'v \<Rightarrow> 'v js_object" where
  "obj_set obj k v =
     (if hasOwnProperty obj k
      then map (\<lambda>(k', v'). if k' = k then (k', v) else (k', v')) obj
      else (case array_index k of
              Some n \<Rightarrow> insert_index n k v obj
            | None \<Rightarrow> obj @ [(k, v)]))"

text \<open>\<open>delete obj[k]\<close>.\<close>

definition obj_delete :: "'v js_object \<Rightarrow> string \<Rightarrow> 'v js_object" where
  "obj_delete obj k = filter (\<lambda>(k', v'). k' \<noteq> k) obj"

text \<open>A JavaScript \<open>Set\<close> of strings: insertion order, no duplicates.\<close>

definition set_add :: "string list \<Rightarrow> string \<Rightarrow> string list" where
  "set_add s x = (if x \<in> set s then s else s @ [x])"

section \<open>Paths, the file system and the console\<close>

text \<open>
  Paths are strings with \<open>/\<close> as separator and are taken as already normalised, so
  \<open>path.join\<close> only puts the separator between its arguments and \<open>path.basename\<close> is
  what follows the last separator.
\<close>

fun path_join :: "string list \<Rightarrow> string" where
  "path_join [] = ''.''"
| "path_join [p] = p"
| "path_join (p # q # ps) = p @ ''/'' @ path_join (q # ps)"

definition basename :: "string \<Rightarrow> string" where
  "basename p = rev (takeWhile (\<lambda>c. c \<noteq> CHR ''/'') (rev p))"

definition dirname :: "string \<Rightarrow> string" where
  "dirname p = rev (drop 1 (dropWhile (\<lambda>c. c \<noteq> CHR ''/'') (rev p)))"

text \<open>A path and the directories above it: the non-empty prefixes that end before a
  separator, then the path itself (\<open>seen\<close> is the part of the path already read).\<close>

fun ancestors_from :: "string \<Rightarrow> string \<Rightarrow> string list" where
  "ancestors_from seen [] = [seen]"
| "ancestors_from seen (c # cs) =
     (if c = CHR ''/'' \<and> seen \<noteq> [] then seen # ancestors_from (seen @ [c]) cs
      else ancestors_from (seen @ [c]) cs)"

definition ancestors :: "string \<Rightarrow> string list" where
  "ancestors p = ancestors_from [] p"

datatype js_error =
    ENOENT | EACCES | EISDIR | EEXIST | ENOTDIR | ENOTEMPTY | EINVAL
  | SyntaxError string
  | TypeError string

fun message :: "js_error \<Rightarrow> string" where
  "message ENOENT = ''ENOENT: no such file or directory''"
| "message EACCES = ''EACCES: permission denied''"
| "message EISDIR = ''EISDIR: illegal operation on a directory''"
| "message EEXIST = ''EEXIST: file already exists''"
| "message ENOTDIR = ''ENOTDIR: not a directory''"
| "message ENOTEMPTY = ''ENOTEMPTY: directory not empty''"
| "message EINVAL = ''EINVAL: invalid argument''"
| "message (SyntaxError m) = m"
| "message (TypeError m) = m"

datatype console_line = Log string | Warn string | Error string

text \<open>
  The part of the outside world the state store touches: regular files with their text,
  directories, the paths on which the operating system refuses a change (permissions, a
  different device), and the lines written to the console. The pictographs that the
  source puts in front of its console messages are left out, and its arrow is written
  \<open>->\<close>.
\<close>

record world =
  files :: "string \<rightharpoonup> string"
  dirs :: "string set"
  denied :: "string set"
  console :: "console_line list"

definition existsSync :: "world \<Rightarrow> string \<Rightarrow> bool" where
  "existsSync w p = (files w p \<noteq> None \<or> p \<in> dirs w)"

definition mkdirSync_recursive :: "world \<Rightarrow> string \<Rightarrow> js_error + world" where
  "mkdirSync_recursive w p =
     (if p \<in> denied w then Inl EACCES
      else if files w p \<noteq> None then Inl EEXIST
      else Inr (w\<lparr>dirs := dirs w \<union> set (ancestors p)\<rparr>))"

definition readFileSync :: "world \<Rightarrow> string \<Rightarrow> js_error + string" where
  "readFileSync w p =
     (if p \<in> denied w then Inl EACCES
      else case files w p of
             Some text \<Rightarrow> Inr text
           | None \<Rightarrow> if p \<in> dirs w then Inl EISDIR else Inl ENOENT)"

definition writeFileSync :: "world \<Rightarrow> string \<Rightarrow> string \<Rightarrow> js_error + world" where
  "writeFileSync w p text =
     (if p \<in> denied w then Inl EACCES
      else if p \<in> dirs w then Inl EISDIR
      else if dirname p \<notin> dirs w then Inl ENOENT
      else Inr (w\<lparr>files := (files w)(p \<mapsto> text)\<rparr>))"

text \<open>
  \<open>lies_under d p\<close>: the path \<open>p\<close> lies below the directory \<open>d\<close>. \<open>rebase src dst p\<close> is
  the path \<open>p\<close> after the directory \<open>src\<close> above it has become \<open>dst\<close>.
\<close>

definition lies_under :: "string \<Rightarrow> string \<Rightarrow> bool" where
  "lies_under d p = (take (Suc (length d)) p = d @ ''/'')"

definition rebase :: "string \<Rightarrow> string \<Rightarrow> string \<Rightarrow> string" where
  "rebase src dst p = dst @ drop (length src) p"

text \<open>
  \<open>fs.renameSync\<close> moves a regular file (replacing a file at the destination) or a
  directory with all that lies below it. A directory cannot be moved onto a file, into
  itself or onto a directory that is not empty; the move of a path onto itself
  succeeds and changes nothing.
\<close>

definition renameSync :: "world \<Rightarrow> string \<Rightarrow> string \<Rightarrow> js_error + world" where
  "renameSync w src dst =
     (if src \<in> denied w \<or> dst \<in> denied w then Inl EACCES
      else case files w src of
             Some text \<Rightarrow>
               if dirname dst \<notin> dirs w then Inl ENOENT
               else if dst \<in> dirs w then Inl EISDIR
               else Inr (w\<lparr>files := ((files w)(src := None))(dst \<mapsto> text)\<rparr>)
           | None \<Rightarrow>
               if src \<notin> dirs w then Inl ENOENT
               else if dirname dst \<notin> dirs w then Inl ENOENT
               else if src = dst then Inr w
               else if files w dst \<noteq> None then Inl ENOTDIR
               else if lies_under src dst then Inl EINVAL
               else if lies_under dst src
                    \<or> (dst \<in> dirs w
                        \<and> ((\<exists>p \<in> dirs w. lies_under dst p) \<or> (\<exists>p \<in> dom (files w). lies_under dst p)))
               then Inl ENOTEMPTY
               else Inr (w\<lparr>files :=
                            (\<lambda>p. if lies_under dst p then files w (rebase dst src p)
                                 else if lies_under src p then None
                                 else files w p),
                          dirs :=
                            {p \<in> dirs w. p \<noteq> src \<and> \<not> lies_under src p}
                            \<union> rebase src dst ` {p \<in> dirs w. p = src \<or> lies_under src p}\<rparr>))"

section \<open>The state document\<close>

text \<open>
  The document has the shape of the default state structure: five stage records, each
  call stage with a map of success entries, a map of failure entries and a running
  total, and the archive lists by category. The fields that differ from stage to stage
  in a success entry (\<open>broker_id\<close>, \<open>filename\<close>, \<open>filepath\<close>; \<open>filename\<close>,
  \<open>transcript_path\<close>; \<open>bubble_url\<close>; \<open>analysis_summary\<close>) are its \<open>details\<close>. Totals
  and call counts are integers, timestamps and call ids are strings, \<open>null\<close> is
  \<open>None\<close>. A state file whose JSON has another shape is outside the model.
\<close>

record date_range =
  start_date :: string
  end_date :: string
  call_count :: int
  processed_at :: string

record get_call_ids_stage =
  processed_date_ranges :: "date_range list"
  total_calls_extracted :: int
  last_run :: "string option"

datatype success_details =
    DownloadDetails (broker_id: string) (filename: string) (filepath: string)
  | TranscribeDetails (filename: string) (transcript_path: string)
  | UploadDetails (bubble_url: string)
  | AnalyzeDetails (sentiment: string) (success_rating: int) (call_disposition: string)

record success_entry =
  status :: string
  details :: success_details
  completed_at :: string

record failure_entry =
  error :: string
  failed_at :: string

record download_audio_stage =
  downloaded_files :: "success_entry js_object"
  failed_downloads :: "failure_entry js_object"
  total_downloaded :: int

record transcribe_stage =
  transcribed_files :: "success_entry js_object"
  failed_transcriptions :: "failure_entry js_object"
  total_transcribed :: int

record upload_audio_stage =
  uploaded_files :: "success_entry js_object"
  failed_uploads :: "failure_entry js_object"
  total_uploaded :: int

record analyze_stage =
  analyzed_calls :: "success_entry js_object"
  failed_analyses :: "failure_entry js_object"
  total_analyzed :: int

record stage_table =
  get_call_ids :: get_call_ids_stage
  download_audio :: download_audio_stage
  transcribe :: transcribe_stage
  upload_audio :: upload_audio_stage
  analyze :: analyze_stage

record archive_entry =
  call_id :: "string option"
  original_filename :: string
  archive_path :: string
  archived_at :: string

record pipeline_doc =
  version :: string
  created :: string
  last_updated :: string
  stages :: stage_table
  archived_files :: "archive_entry list js_object"

text \<open>
  The JSON text of a document is produced and read by the JavaScript runtime, not by
  this program; the two functions are parameters of the model. \<open>JSON_parse\<close> returns
  the message of the syntax error when the text is not JSON.
\<close>

record runtime =
  JSON_stringify :: "pipeline_doc \<Rightarrow> string"
  JSON_parse :: "string \<Rightarrow> string + pipeline_doc"

record PipelineState =
  baseDir :: string
  stateFile :: string
  archiveDir :: string
  state :: pipeline_doc

section \<open>Construction, loading and saving\<close>

text \<open>The default state structure. Here and below \<open>now\<close> is the clock reading
  \<open>new Date().toISOString()\<close>, taken once for a call.\<close>

definition default_state :: "string \<Rightarrow> pipeline_doc" where
  "default_state now =
     \<lparr>version = ''1.0.0'',
      created = now,
      last_updated = now,
      stages =
        \<lparr>get_call_ids =
           \<lparr>processed_date_ranges = [], total_calls_extracted = 0, last_run = None\<rparr>,
         download_audio =
           \<lparr>downloaded_files = [], failed_downloads = [], total_downloaded = 0\<rparr>,
         transcribe =
           \<lparr>transcribed_files = [], failed_transcriptions = [], total_transcribed = 0\<rparr>,
         upload_audio =
           \<lparr>uploaded_files = [], failed_uploads = [], total_uploaded = 0\<rparr>,
         analyze =
           \<lparr>analyzed_calls = [], failed_analyses = [], total_analyzed = 0\<rparr>\<rparr>,
      archived_files = [(''call_ids'', []), (''audio'', []), (''transcripts'', [])]\<rparr>"

definition warn_load :: "world \<Rightarrow> string \<Rightarrow> world" where
  "warn_load w msg = w\<lparr>console := console w @ [Warn (''Could not load pipeline state: '' @ msg)]\<rparr>"

definition loadState :: "runtime \<Rightarrow> string \<Rightarrow> string \<Rightarrow> world \<Rightarrow> pipeline_doc \<times> world" where
  "loadState rt now sfile w =
     (if existsSync w sfile then
        (case readFileSync w sfile of
           Inl e \<Rightarrow> (default_state now, warn_load w (message e))
         | Inr text \<Rightarrow>
             (case JSON_parse rt text of
                Inl msg \<Rightarrow> (default_state now, warn_load w msg)
              | Inr doc \<Rightarrow> (doc, w)))
      else (default_state now, w))"

text \<open>\<open>if (!fs.existsSync(dir)) { fs.mkdirSync(dir, { recursive: true }); }\<close>\<close>

definition ensure_dir :: "world \<Rightarrow> string \<Rightarrow> js_error + world" where
  "ensure_dir w dir = (if \<not> existsSync w dir then mkdirSync_recursive w dir else Inr w)"

text \<open>\<open>dirs.forEach\<close>: the first error ends the loop, with the directories made so
  far.\<close>

fun ensure_each :: "string list \<Rightarrow> world \<Rightarrow> (js_error + unit) \<times> world" where
  "ensure_each [] w = (Inr (), w)"
| "ensure_each (dir # ds) w =
     (case ensure_dir w dir of
        Inl e \<Rightarrow> (Inl e, w)
      | Inr w' \<Rightarrow> ensure_each ds w')"

definition ensureDirectories :: "string \<Rightarrow> string \<Rightarrow> world \<Rightarrow> (js_error + unit) \<times> world" where
  "ensureDirectories bdir adir w =
     ensure_each
       [path_join [bdir, ''logs''],
        adir,
        path_join [adir, ''call_ids''],
        path_join [adir, ''audio''],
        path_join [adir, ''transcripts''],
        path_join [adir, ''failed'']] w"

text \<open>\<open>new PipelineState(baseDir)\<close>: the state is loaded first, then the directories
  are ensured; an error of \<open>mkdirSync\<close> leaves the constructor as an exception.\<close>

definition constructor :: "runtime \<Rightarrow> string \<Rightarrow> string \<Rightarrow> world \<Rightarrow> (js_error + PipelineState) \<times> world" where
  "constructor rt now bdir w =
     (let sfile = path_join [bdir, ''logs'', ''pipeline_state.json''];
          adir = path_join [bdir, ''archive''];
          (doc, w1) = loadState rt now sfile w;
          this = \<lparr>baseDir = bdir, stateFile = sfile, archiveDir = adir, state = doc\<rparr>
      in case ensureDirectories bdir adir w1 of
           (Inl e, w2) \<Rightarrow> (Inl e, w2)
         | (Inr u, w2) \<Rightarrow> (Inr this, w2))"

text \<open>
  Every method below takes the world and the object and returns what the call produced
  (\<open>Inl\<close> for an exception that leaves the method) with the world and the object after
  the call: the object is changed in place, so its changes stand also when the write of
  the state file fails afterwards.
\<close>

type_synonym 'a js_method = "world \<times> PipelineState \<Rightarrow> (js_error + 'a) \<times> world \<times> PipelineState"

definition saveState :: "runtime \<Rightarrow> string \<Rightarrow> unit js_method" where
  "saveState rt now = (\<lambda>(w, this).
     let this' = this\<lparr>state := (state this)\<lparr>last_updated := now\<rparr>\<rparr>
     in case writeFileSync w (stateFile this') (JSON_stringify rt (state this')) of
          Inl e \<Rightarrow> (Inl e, w, this')
        | Inr w' \<Rightarrow> (Inr (), w', this'))"

section \<open>Deduplication checks\<close>

definition isDateRangeProcessed :: "PipelineState \<Rightarrow> string \<Rightarrow> string \<Rightarrow> bool" where
  "isDateRangeProcessed this startDate endDate =
     (let ranges = processed_date_ranges (get_call_ids (stages (state this)))
      in list_ex (\<lambda>range. start_date range = startDate \<and> end_date range = endDate) ranges)"

definition isCallIdExtracted :: "PipelineState \<Rightarrow> string \<Rightarrow> bool" where
  "isCallIdExtracted this callId =
     hasOwnProperty (downloaded_files (download_audio (stages (state this)))) callId"

text \<open>\<open>obj[callId]?.status === 'completed'\<close>: a missing entry has no status.\<close>

definition status_completed :: "success_entry js_object \<Rightarrow> string \<Rightarrow> bool" where
  "status_completed obj callId =
     (case obj_get obj callId of
        None \<Rightarrow> False
      | Some entry \<Rightarrow> status entry = ''completed'')"

definition isAudioDownloaded :: "PipelineState \<Rightarrow> string \<Rightarrow> bool" where
  "isAudioDownloaded this callId =
     status_completed (downloaded_files (download_audio (stages (state this)))) callId"

definition isTranscribed :: "PipelineState \<Rightarrow> string \<Rightarrow> bool" where
  "isTranscribed this callId =
     status_completed (transcribed_files (transcribe (stages (state this)))) callId"

definition isAudioUploaded :: "PipelineState \<Rightarrow> string \<Rightarrow> bool" where
  "isAudioUploaded this callId =
     status_completed (uploaded_files (upload_audio (stages (state this)))) callId"

definition isAnalyzed :: "PipelineState \<Rightarrow> string \<Rightarrow> bool" where
  "isAnalyzed this callId =
     status_completed (analyzed_calls (analyze (stages (state this)))) callId"

section \<open>State updates\<close>

definition markDateRangeProcessed ::
  "runtime \<Rightarrow> string \<Rightarrow> string \<Rightarrow> string \<Rightarrow> int \<Rightarrow> unit js_method" where
  "markDateRangeProcessed rt now startDate endDate callCount = (\<lambda>(w, this).
     let st = stages (state this);
         g = get_call_ids st;
         g1 = g\<lparr>processed_date_ranges := processed_date_ranges g @
                [\<lparr>start_date = startDate, end_date = endDate,
                  call_count = callCount, processed_at = now\<rparr>]\<rparr>;
         g2 = g1\<lparr>total_calls_extracted := total_calls_extracted g1 + callCount\<rparr>;
         g3 = g2\<lparr>last_run := Some now\<rparr>
     in saveState rt now
          (w, this\<lparr>state := (state this)\<lparr>stages := st\<lparr>get_call_ids := g3\<rparr>\<rparr>\<rparr>))"

definition markAudioDownloaded ::
  "runtime \<Rightarrow> string \<Rightarrow> string \<Rightarrow> string \<Rightarrow> string \<Rightarrow> string \<Rightarrow> unit js_method" where
  "markAudioDownloaded rt now callId brokerId fname fpath = (\<lambda>(w, this).
     let st = stages (state this);
         d = download_audio st;
         d1 = d\<lparr>downloaded_files := obj_set (downloaded_files d) callId
                \<lparr>status = ''completed'',
                 details = DownloadDetails brokerId fname fpath,
                 completed_at = now\<rparr>\<rparr>;
         d2 = d1\<lparr>total_downloaded := total_downloaded d1 + 1\<rparr>
     in saveState rt now
          (w, this\<lparr>state := (state this)\<lparr>stages := st\<lparr>download_audio := d2\<rparr>\<rparr>\<rparr>))"

definition markAudioDownloadFailed ::
  "runtime \<Rightarrow> string \<Rightarrow> string \<Rightarrow> string \<Rightarrow> unit js_method" where
  "markAudioDownloadFailed rt now callId err = (\<lambda>(w, this).
     let st = stages (state this);
         d = download_audio st;
         d1 = d\<lparr>failed_downloads := obj_set (failed_downloads d) callId
                \<lparr>error = err, failed_at = now\<rparr>\<rparr>
     in saveState rt now
          (w, this\<lparr>state := (state this)\<lparr>stages := st\<lparr>download_audio := d1\<rparr>\<rparr>\<rparr>))"

definition markTranscribed ::
  "runtime \<Rightarrow> string \<Rightarrow> string \<Rightarrow> string \<Rightarrow> string \<Rightarrow> unit js_method" where
  "markTranscribed rt now callId fname transcriptPath = (\<lambda>(w, this).
     let st = stages (state this);
         t = transcribe st;
         t1 = t\<lparr>transcribed_files := obj_set (transcribed_files t) callId
                \<lparr>status = ''completed'',
                 details = TranscribeDetails fname transcriptPath,
                 completed_at = now\<rparr>\<rparr>;
         t2 = t1\<lparr>total_transcribed := total_transcribed t1 + 1\<rparr>
     in saveState rt now
          (w, this\<lparr>state := (state this)\<lparr>stages := st\<lparr>transcribe := t2\<rparr>\<rparr>\<rparr>))"

definition markTranscriptionFailed ::
  "runtime \<Rightarrow> string \<Rightarrow> string \<Rightarrow> string \<Rightarrow> unit js_method" where
  "markTranscriptionFailed rt now callId err = (\<lambda>(w, this).
     let st = stages (state this);
         t = transcribe st;
         t1 = t\<lparr>failed_transcriptions := obj_set (failed_transcriptions t) callId
                \<lparr>error = err, failed_at = now\<rparr>\<rparr>
     in saveState rt now
          (w, this\<lparr>state := (state this)\<lparr>stages := st\<lparr>transcribe := t1\<rparr>\<rparr>\<rparr>))"

definition markAudioUploaded ::
  "runtime \<Rightarrow> string \<Rightarrow> string \<Rightarrow> string \<Rightarrow> unit js_method" where
  "markAudioUploaded rt now callId bubbleUrl = (\<lambda>(w, this).
     let st = stages (state this);
         u = upload_audio st;
         u1 = u\<lparr>uploaded_files := obj_set (uploaded_files u) callId
                \<lparr>status = ''completed'',
                 details = UploadDetails bubbleUrl,
                 completed_at = now\<rparr>\<rparr>;
         u2 = u1\<lparr>total_uploaded := total_uploaded u1 + 1\<rparr>
     in saveState rt now
          (w, this\<lparr>state := (state this)\<lparr>stages := st\<lparr>upload_audio := u2\<rparr>\<rparr>\<rparr>))"

definition markAudioUploadFailed ::
  "runtime \<Rightarrow> string \<Rightarrow> string \<Rightarrow> string \<Rightarrow> unit js_method" where
  "markAudioUploadFailed rt now callId err = (\<lambda>(w, this).
     let st = stages (state this);
         u = upload_audio st;
         u1 = u\<lparr>failed_uploads := obj_set (failed_uploads u) callId
                \<lparr>error = err, failed_at = now\<rparr>\<rparr>
     in saveState rt now
          (w, this\<lparr>state := (state this)\<lparr>stages := st\<lparr>upload_audio := u1\<rparr>\<rparr>\<rparr>))"

text \<open>\<open>analysisData\<close> is read at its three fields \<open>sentiment\<close>, \<open>success_rating\<close> and
  \<open>call_disposition\<close>.\<close>

definition markAnalyzed ::
  "runtime \<Rightarrow> string \<Rightarrow> string \<Rightarrow> string \<times> int \<times> string \<Rightarrow> unit js_method" where
  "markAnalyzed rt now callId analysisData = (\<lambda>(w, this).
     let st = stages (state this);
         a = analyze st;
         a1 = a\<lparr>analyzed_calls := obj_set (analyzed_calls a) callId
                \<lparr>status = ''completed'',
                 details = (case analysisData of
                              (sent, rating, disp) \<Rightarrow> AnalyzeDetails sent rating disp),
                 completed_at = now\<rparr>\<rparr>;
         a2 = a1\<lparr>total_analyzed := total_analyzed a1 + 1\<rparr>
     in saveState rt now
          (w, this\<lparr>state := (state this)\<lparr>stages := st\<lparr>analyze := a2\<rparr>\<rparr>\<rparr>))"

definition markAnalysisFailed ::
  "runtime \<Rightarrow> string \<Rightarrow> string \<Rightarrow> string \<Rightarrow> unit js_method" where
  "markAnalysisFailed rt now callId err = (\<lambda>(w, this).
     let st = stages (state this);
         a = analyze st;
         a1 = a\<lparr>failed_analyses := obj_set (failed_analyses a) callId
                \<lparr>error = err, failed_at = now\<rparr>\<rparr>
     in saveState rt now
          (w, this\<lparr>state := (state this)\<lparr>stages := st\<lparr>analyze := a1\<rparr>\<rparr>\<rparr>))"

section \<open>Archiving\<close>

definition archive_failed :: "string \<Rightarrow> js_error \<Rightarrow> (string option) js_method" where
  "archive_failed sourceFile e = (\<lambda>(w, this).
     (Inr None,
      w\<lparr>console := console w @ [Error (''Failed to archive '' @ sourceFile @ '': '' @ message e)]\<rparr>,
      this))"

text \<open>
  The whole body stands in a \<open>try\<close> block whose handler reports the error on the
  console and returns \<open>null\<close> (\<open>None\<close>): creating the dated directory, the move, the
  \<open>push\<close> on \<open>archived_files[category]\<close> (a \<open>TypeError\<close> when the document has no list
  for the category) and the save can each end there.
\<close>

definition archiveFile ::
  "runtime \<Rightarrow> string \<Rightarrow> string \<Rightarrow> string \<Rightarrow> string option \<Rightarrow> (string option) js_method" where
  "archiveFile rt now sourceFile category callId = (\<lambda>(w, this).
     let fname = basename sourceFile;
         timestamp = takeWhile (\<lambda>c. c \<noteq> CHR ''T'') now;
         archivePath = path_join [archiveDir this, category, timestamp];
         destinationFile = path_join [archivePath, fname]
     in case ensure_dir w archivePath of
          Inl e \<Rightarrow> archive_failed sourceFile e (w, this)
        | Inr w1 \<Rightarrow>
            (case renameSync w1 sourceFile destinationFile of
               Inl e \<Rightarrow> archive_failed sourceFile e (w1, this)
             | Inr w2 \<Rightarrow>
                 (case obj_get (archived_files (state this)) category of
                    None \<Rightarrow>
                      archive_failed sourceFile
                        (TypeError ''Cannot read properties of undefined (reading push)'')
                        (w2, this)
                  | Some entries \<Rightarrow>
                      let this1 = this\<lparr>state := (state this)\<lparr>archived_files :=
                            obj_set (archived_files (state this)) category
                              (entries @
                                 [\<lparr>call_id = callId,
                                   original_filename = fname,
                                   archive_path = destinationFile,
                                   archived_at = now\<rparr>])\<rparr>\<rparr>
                      in (case saveState rt now (w2, this1) of
                            (Inl e, w3, this2) \<Rightarrow> archive_failed sourceFile e (w3, this2)
                          | (Inr u, w3, this2) \<Rightarrow>
                              (Inr (Some destinationFile),
                               w3\<lparr>console := console w3 @
                                    [Log (''Archived: '' @ fname @ '' -> '' @ category @ ''/''
                                            @ timestamp @ ''/'')]\<rparr>,
                               this2)))))"

section \<open>Utilities\<close>

text \<open>
  JavaScript numbers are IEEE 754 doubles. The running totals are integers, exact as
  doubles below \<open>2^53\<close>; the quotient and the product of the completion rate are rounded
  to the nearest double, ties to even. Values are rationals, and the exponent range is
  not bounded: the quotient of two such totals times one hundred is far from overflow
  and underflow.
\<close>

definition pow2 :: "int \<Rightarrow> rat" where
  "pow2 e = (if 0 \<le> e then 2 ^ nat e else 1 / 2 ^ nat (- e))"

definition round_half_even :: "rat \<Rightarrow> int" where
  "round_half_even x =
     (let f = \<lfloor>x\<rfloor>; r = x - of_int f
      in if r < 1 / 2 then f
         else if 1 / 2 < r then f + 1
         else if even f then f else f + 1)"

text \<open>The exponent of the leading bit of a positive rational.\<close>

definition binary_exponent :: "rat \<Rightarrow> int" where
  "binary_exponent x =
     (case quotient_of x of
        (p, q) \<Rightarrow> let k = bitlen p - bitlen q in if pow2 k \<le> x then k else k - 1)"

definition to_double :: "rat \<Rightarrow> rat" where
  "to_double x =
     (if x = 0 then 0
      else let a = \<bar>x\<bar>; ulp = pow2 (binary_exponent a - 52)
           in sgn x * of_int (round_half_even (a / ulp)) * ulp)"

definition js_div :: "rat \<Rightarrow> rat \<Rightarrow> rat" where
  "js_div x y = to_double (x / y)"

definition js_mul :: "rat \<Rightarrow> rat \<Rightarrow> rat" where
  "js_mul x y = to_double (x * y)"

fun decimal :: "nat \<Rightarrow> string" where
  "decimal n =
     (if n < 10 then [char_of (48 + n)]
      else decimal (n div 10) @ [char_of (48 + n mod 10)])"

text \<open>\<open>x.toFixed(1)\<close> for a finite \<open>x\<close> of magnitude below \<open>10^21\<close>: the integer \<open>n\<close>
  with \<open>n / 10\<close> nearest to \<open>x\<close> (the larger one of two), written with one digit after
  the point.\<close>

definition toFixed1 :: "rat \<Rightarrow> string" where
  "toFixed1 x =
     (let s = (if x < 0 then ''-'' else []);
          a = \<bar>x\<bar>;
          n = nat \<lfloor>a * 10 + 1 / 2\<rfloor>;
          m = decimal n;
          m' = (if length m \<le> 1 then ''0'' @ m else m)
      in s @ take (length m' - 1) m' @ ''.'' @ drop (length m' - 1) m')"

record stats =
  stats_total_calls_extracted :: int
  audio_downloaded :: int
  transcribed :: int
  uploaded_to_bubble :: int
  analyzed :: int
  stats_archived_files :: nat
  completion_rate :: string

definition getProcessingStats :: "PipelineState \<Rightarrow> stats" where
  "getProcessingStats this =
     (let st = stages (state this);
          extracted = total_calls_extracted (get_call_ids st);
          done = total_analyzed (analyze st)
      in \<lparr>stats_total_calls_extracted = extracted,
          audio_downloaded = total_downloaded (download_audio st),
          transcribed = total_transcribed (transcribe st),
          uploaded_to_bubble = total_uploaded (upload_audio st),
          analyzed = done,
          stats_archived_files = length (concat (obj_values (archived_files (state this)))),
          completion_rate =
            (if extracted > 0
             then toFixed1 (js_mul (js_div (of_int done) (of_int extracted)) 100) @ ''%''
             else ''0%'')\<rparr>)"

definition getFailedItems :: "PipelineState \<Rightarrow> string list js_object" where
  "getFailedItems this =
     (let st = stages (state this)
      in [(''failed_downloads'', obj_keys (failed_downloads (download_audio st))),
          (''failed_transcriptions'', obj_keys (failed_transcriptions (transcribe st))),
          (''failed_uploads'', obj_keys (failed_uploads (upload_audio st))),
          (''failed_analyses'', obj_keys (failed_analyses (analyze st)))])"

text \<open>The baseline: the downloaded calls, collected into a \<open>Set\<close> in key order. The
  entry of a key that \<open>Object.keys\<close> listed is there, so reading its \<open>status\<close> is the
  test of the deduplication checks.\<close>

definition allCalls :: "PipelineState \<Rightarrow> string list" where
  "allCalls this =
     (let dl = downloaded_files (download_audio (stages (state this)))
      in fold (\<lambda>callId acc. if status_completed dl callId then set_add acc callId else acc)
           (obj_keys dl) [])"

definition getCallsForProcessing :: "PipelineState \<Rightarrow> string \<Rightarrow> string list" where
  "getCallsForProcessing this stage =
     (if stage = ''transcribe'' then
        filter (\<lambda>callId. \<not> isTranscribed this callId) (allCalls this)
      else if stage = ''upload_audio'' then
        filter (\<lambda>callId. \<not> isAudioUploaded this callId) (allCalls this)
      else if stage = ''analyze'' then
        filter (\<lambda>callId. isTranscribed this callId \<and> isAudioUploaded this callId
                          \<and> \<not> isAnalyzed this callId) (allCalls this)
      else allCalls this)"

subsection \<open>Reset of failed items\<close>

text \<open>
  \<open>this.state.stages[stage]\<close> is the stage object of that name, or \<open>undefined\<close> for a
  name that is no stage. The object is held by reference: what \<open>retryFailed\<close> deletes
  through \<open>stageData\<close> is deleted in the document.
\<close>

datatype stage_data =
    GetCallIds get_call_ids_stage
  | DownloadAudio download_audio_stage
  | Transcribe transcribe_stage
  | UploadAudio upload_audio_stage
  | Analyze analyze_stage

definition stage_lookup :: "stage_table \<Rightarrow> string \<Rightarrow> stage_data option" where
  "stage_lookup st stage =
     (if stage = ''get_call_ids'' then Some (GetCallIds (get_call_ids st))
      else if stage = ''download_audio'' then Some (DownloadAudio (download_audio st))
      else if stage = ''transcribe'' then Some (Transcribe (transcribe st))
      else if stage = ''upload_audio'' then Some (UploadAudio (upload_audio st))
      else if stage = ''analyze'' then Some (Analyze (analyze st))
      else None)"

fun stage_store :: "stage_table \<Rightarrow> stage_data \<Rightarrow> stage_table" where
  "stage_store st (GetCallIds g) = st\<lparr>get_call_ids := g\<rparr>"
| "stage_store st (DownloadAudio d) = st\<lparr>download_audio := d\<rparr>"
| "stage_store st (Transcribe t) = st\<lparr>transcribe := t\<rparr>"
| "stage_store st (UploadAudio u) = st\<lparr>upload_audio := u\<rparr>"
| "stage_store st (Analyze a) = st\<lparr>analyze := a\<rparr>"

text \<open>\<open>Object.keys(m).forEach(callId => { delete m[callId]; })\<close>\<close>

definition delete_each :: "'v js_object \<Rightarrow> 'v js_object" where
  "delete_each m = fold (\<lambda>callId acc. obj_delete acc callId) (obj_keys m) m"

text \<open>
  The four guarded blocks of \<open>retryFailed\<close>. A property that the stage object does not
  have reads as \<open>undefined\<close> and its block is skipped; a failure map that the object
  has is an object, hence truthy also when empty.
\<close>

fun clear_failed_downloads :: "stage_data \<Rightarrow> stage_data" where
  "clear_failed_downloads (DownloadAudio d) =
     DownloadAudio (d\<lparr>failed_downloads := delete_each (failed_downloads d)\<rparr>)"
| "clear_failed_downloads stageData = stageData"

fun clear_failed_transcriptions :: "stage_data \<Rightarrow> stage_data" where
  "clear_failed_transcriptions (Transcribe t) =
     Transcribe (t\<lparr>failed_transcriptions := delete_each (failed_transcriptions t)\<rparr>)"
| "clear_failed_transcriptions stageData = stageData"

fun clear_failed_uploads :: "stage_data \<Rightarrow> stage_data" where
  "clear_failed_uploads (UploadAudio u) =
     UploadAudio (u\<lparr>failed_uploads := delete_each (failed_uploads u)\<rparr>)"
| "clear_failed_uploads stageData = stageData"

fun clear_failed_analyses :: "stage_data \<Rightarrow> stage_data" where
  "clear_failed_analyses (Analyze a) =
     Analyze (a\<lparr>failed_analyses := delete_each (failed_analyses a)\<rparr>)"
| "clear_failed_analyses stageData = stageData"

definition retryFailed :: "runtime \<Rightarrow> string \<Rightarrow> string \<Rightarrow> unit js_method" where
  "retryFailed rt now stage = (\<lambda>(w, this).
     let st = stages (state this);
         st' = (case stage_lookup st stage of
                  None \<Rightarrow> st
                | Some stageData \<Rightarrow>
                    stage_store st
                      (clear_failed_analyses
                        (clear_failed_uploads
                          (clear_failed_transcriptions
                            (clear_failed_downloads stageData)))))
     in saveState rt now (w, this\<lparr>state := (state this)\<lparr>stages := st'\<rparr>\<rparr>))"

section \<open>Reading the outcome of a call\<close>

definition result_of :: "'a \<times> world \<times> PipelineState \<Rightarrow> 'a" where
  "result_of r = fst r"

definition world_after :: "'a \<times> world \<times> PipelineState \<Rightarrow> world" where
  "world_after r = fst (snd r)"

definition object_after :: "'a \<times> world \<times> PipelineState \<Rightarrow> PipelineState" where
  "object_after r = snd (snd r)"

section \<open>Examples\<close>

text \<open>A runtime whose serialiser writes nothing useful and whose parser rejects every
  text, an empty disk with the directories of a base directory, and the object a first
  run constructs there.\<close>

definition null_runtime :: runtime where
  "null_runtime = \<lparr>JSON_stringify = (\<lambda>doc. []), JSON_parse = (\<lambda>text. Inl ''Unexpected end of JSON input'')\<rparr>"

definition empty_disk :: world where
  "empty_disk =
     \<lparr>files = Map.empty,
      dirs = {''/base'', ''/base/logs'', ''/base/archive''},
      denied = {},
      console = []\<rparr>"

definition fresh :: PipelineState where
  "fresh =
     \<lparr>baseDir = ''/base'',
      stateFile = ''/base/logs/pipeline_state.json'',
      archiveDir = ''/base/archive'',
      state = default_state ''2025-01-01T00:00:00.000Z''\<rparr>"

text \<open>Calls A, B and C: all three downloaded, A and B transcribed, A uploaded.\<close>

definition abc_steps :: "(unit js_method) list" where
  "abc_steps =
     [markAudioDownloaded null_runtime ''2025-01-01T00:00:01.000Z'' ''A'' ''B1'' ''B1_A.wav'' ''/tmp/B1_A.wav'',
      markAudioDownloaded null_runtime ''2025-01-01T00:00:02.000Z'' ''B'' ''B1'' ''B1_B.wav'' ''/tmp/B1_B.wav'',
      markAudioDownloaded null_runtime ''2025-01-01T00:00:03.000Z'' ''C'' ''B1'' ''B1_C.wav'' ''/tmp/B1_C.wav'',
      markTranscribed null_runtime ''2025-01-01T00:00:04.000Z'' ''A'' ''B1_A.wav'' ''/tmp/B1_A.txt'',
      markTranscribed null_runtime ''2025-01-01T00:00:05.000Z'' ''B'' ''B1_B.wav'' ''/tmp/B1_B.txt'',
      markAudioUploaded null_runtime ''2025-01-01T00:00:06.000Z'' ''A'' ''https://example.org/A.wav'']"

text \<open>A sequence of calls, each on the world and the object the one before left.\<close>

definition run_all :: "('a js_method) list \<Rightarrow> world \<times> PipelineState \<Rightarrow> world \<times> PipelineState" where
  "run_all steps start = fold (\<lambda>step ws. snd (step ws)) steps start"

definition abc :: PipelineState where
  "abc = snd (run_all abc_steps (empty_disk, fresh))"

text \<open>Ten calls extracted, three of them analyzed.\<close>

definition three_of_ten :: PipelineState where
  "three_of_ten = snd (run_all
     [markDateRangeProcessed null_runtime ''2025-01-03T00:00:00.000Z'' ''2025-01-01'' ''2025-01-02'' 10,
      markAnalyzed null_runtime ''2025-01-03T00:00:01.000Z'' ''C1'' (''positive'', 4, ''interested''),
      markAnalyzed null_runtime ''2025-01-03T00:00:02.000Z'' ''C2'' (''neutral'', 3, ''callback''),
      markAnalyzed null_runtime ''2025-01-03T00:00:03.000Z'' ''C3'' (''negative'', 1, ''not_interested'')]
     (empty_disk, fresh))"

text \<open>A disk with one transcript waiting in the output directory.\<close>

definition transcript_disk :: world where
  "transcript_disk =
     \<lparr>files = [''/base/output/transcripts/B1_C1.txt'' \<mapsto> ''Speaker A: hello''],
      dirs = {''/base'', ''/base/logs'', ''/base/archive'', ''/base/archive/transcripts'',
              ''/base/output'', ''/base/output/transcripts''},
      denied = {},
      console = []\<rparr>"

text \<open>A disk on which that transcript already lies in the archive directory of
  1 January 2025.\<close>

definition archived_disk :: world where
  "archived_disk =
     \<lparr>files = [''/base/archive/transcripts/2025-01-01/B1_C1.txt'' \<mapsto> ''Speaker A: hello''],
      dirs = {''/base'', ''/base/logs'', ''/base/archive'', ''/base/archive/transcripts'',
              ''/base/archive/transcripts/2025-01-01''},
      denied = {},
      console = []\<rparr>"

text \<open>A disk whose state file was cut off in the middle of a write.\<close>

definition corrupt_disk :: world where
  "corrupt_disk =
     \<lparr>files = [''/base/logs/pipeline_state.json'' \<mapsto> ''{ version: 1.0''],
      dirs = {''/base'', ''/base/logs''},
      denied = {},
      console = []\<rparr>"



text \<open>The download of call C1 fails, and succeeds at the next attempt.\<close>

definition download_failed :: "(js_error + unit) \<times> world \<times> PipelineState" where
  "download_failed =
     markAudioDownloadFailed null_runtime ''2025-01-01T00:00:01.000Z''
       ''C1'' ''timeout of 30000ms exceeded'' (empty_disk, fresh)"

definition download_retried :: "(js_error + unit) \<times> world \<times> PipelineState" where
  "download_retried =
     markAudioDownloaded null_runtime ''2025-01-01T00:00:02.000Z''
       ''C1'' ''B1'' ''B1_C1.wav'' ''/tmp/B1_C1.wav''
       (world_after download_failed, object_after download_failed)"

text \<open>The archived transcript is given to \<open>archiveFile\<close> again on the same day.\<close>

definition archived_again :: "(js_error + string option) \<times> world \<times> PipelineState" where
  "archived_again =
     archiveFile null_runtime ''2025-01-01T18:00:00.000Z''
       ''/base/archive/transcripts/2025-01-01/B1_C1.txt'' ''transcripts'' (Some ''C1'')
       (archived_disk, fresh)"

section \<open>Properties of the dictionary operations\<close>

lemma set_insert_index: "set (insert_index n k v obj) = insert (k, v) (set obj)"
  by (induction obj) (auto split: option.splits if_splits)

lemma map_of_insert_index:
  "k \<notin> fst ` set obj \<Longrightarrow> map_of (insert_index n k v obj) = (map_of obj)(k \<mapsto> v)"
proof (induction obj)
  case Nil
  then show ?case by simp
next
  case (Cons p obj)
  obtain a b where p: "p = (a, b)" by (cases p)
  from Cons.prems p have ak: "a \<noteq> k" and notin: "k \<notin> fst ` set obj" by auto
  have ih: "map_of (insert_index n k v obj) = (map_of obj)(k \<mapsto> v)"
    by (rule Cons.IH [OF notin])
  show ?case
  proof (cases "array_index a")
    case None
    with ak show ?thesis by (auto simp: p fun_eq_iff)
  next
    case (Some m)
    show ?thesis
    proof (cases "m < n")
      case True
      with Some ih ak show ?thesis by (auto simp: p fun_eq_iff)
    next
      case False
      with Some ak show ?thesis by (auto simp: p fun_eq_iff)
    qed
  qed
qed

lemma map_of_replace_other:
  "k' \<noteq> k \<Longrightarrow>
   map_of (map (\<lambda>(a, b). if a = k then (a, v) else (a, b)) obj) k' = map_of obj k'"
  by (induction obj) (simp_all split: prod.splits)

lemma map_of_replace_same:
  "k \<in> fst ` set obj \<Longrightarrow>
   map_of (map (\<lambda>(a, b). if a = k then (a, v) else (a, b)) obj) k = Some v"
  by (induction obj) (auto split: prod.splits)

lemma keys_replace:
  "obj_keys (map (\<lambda>(a, b). if a = k then (a, v) else (a, b)) obj) = obj_keys obj"
  unfolding obj_keys_def by (induction obj) (simp_all split: prod.splits)

lemma map_of_snoc:
  "k \<notin> fst ` set obj \<Longrightarrow> map_of (obj @ [(k, v)]) = (map_of obj)(k \<mapsto> v)"
  by (induction obj) (auto simp: fun_upd_twist)

lemma keys_obj_set: "set (obj_keys (obj_set obj k v)) = insert k (set (obj_keys obj))"
proof (cases "hasOwnProperty obj k")
  case True
  then have "k \<in> set (obj_keys obj)" by (simp add: hasOwnProperty_def)
  with True show ?thesis
    by (simp add: obj_set_def keys_replace insert_absorb)
next
  case False
  show ?thesis
  proof (cases "array_index k")
    case None
    with False show ?thesis by (simp add: obj_set_def obj_keys_def)
  next
    case (Some n)
    with False show ?thesis by (simp add: obj_set_def obj_keys_def set_insert_index)
  qed
qed

lemma obj_get_obj_set:
  "obj_get (obj_set obj k v) k' = (if k' = k then Some v else obj_get obj k')"
proof (cases "hasOwnProperty obj k")
  case True
  then have "k \<in> fst ` set obj" by (simp add: hasOwnProperty_def obj_keys_def)
  with True show ?thesis
    by (simp add: obj_set_def obj_get_def map_of_replace_other map_of_replace_same)
next
  case False
  then have notin: "k \<notin> fst ` set obj" by (simp add: hasOwnProperty_def obj_keys_def)
  show ?thesis
  proof (cases "array_index k")
    case None
    with False show ?thesis
      by (simp add: obj_set_def obj_get_def map_of_snoc [OF notin] del: map_of_append)
  next
    case (Some n)
    with False show ?thesis
      by (simp add: obj_set_def obj_get_def map_of_insert_index [OF notin])
  qed
qed


lemma status_completed_obj_set:
  "status_completed (obj_set obj k \<lparr>status = ''completed'', details = d, completed_at = t\<rparr>) k"
  by (simp add: status_completed_def obj_get_obj_set)

lemma fold_set_add:
  "set (fold (\<lambda>callId acc. if P callId then set_add acc callId else acc) ks acc) =
     set acc \<union> {k \<in> set ks. P k}"
  by (induction ks arbitrary: acc) (auto simp: set_add_def)

lemma fold_set_add_distinct:
  "distinct acc \<Longrightarrow>
   distinct (fold (\<lambda>callId acc. if P callId then set_add acc callId else acc) ks acc)"
  by (induction ks arbitrary: acc) (auto simp: set_add_def)

lemma status_completed_key: "status_completed obj k \<Longrightarrow> k \<in> set (obj_keys obj)"
proof -
  assume "status_completed obj k"
  then obtain e where "map_of obj k = Some e"
    by (auto simp: status_completed_def obj_get_def split: option.splits)
  then have "(k, e) \<in> set obj" by (rule map_of_SomeD)
  then show ?thesis by (force simp: obj_keys_def)
qed

lemma set_allCalls: "set (allCalls this) = {c. isAudioDownloaded this c}"
  by (auto simp: allCalls_def isAudioDownloaded_def fold_set_add Let_def status_completed_key)

lemma distinct_allCalls: "distinct (allCalls this)"
  by (simp add: allCalls_def Let_def fold_set_add_distinct)

lemma fold_obj_delete:
  "fold (\<lambda>callId acc. obj_delete acc callId) ks m = filter (\<lambda>(k, v). k \<notin> set ks) m"
proof (induction ks arbitrary: m)
  case Nil
  then show ?case by simp
next
  case (Cons k ks)
  have "filter (\<lambda>(k', v). k' \<notin> set ks) (obj_delete m k) = filter (\<lambda>(k', v). k' \<notin> set (k # ks)) m"
    by (induction m) (auto simp: obj_delete_def)
  with Cons show ?case by simp
qed

lemma delete_each_empty: "delete_each m = []"
  unfolding delete_each_def fold_obj_delete obj_keys_def
  by (induction m) (auto simp: filter_empty_conv)

section \<open>What a save leaves of the object\<close>

lemma state_after_saveState:
  "state (object_after (saveState rt now (w, this))) = (state this)\<lparr>last_updated := now\<rparr>"
  by (simp add: saveState_def object_after_def Let_def split: sum.splits)

lemma stages_after_saveState:
  "stages (state (object_after (saveState rt now (w, this)))) = stages (state this)"
  by (simp add: state_after_saveState)

section \<open>Reset of failed items\<close>

lemma state_after_retryFailed:
  "state (object_after (retryFailed rt now stage (w, this))) =
     (state this)
       \<lparr>stages :=
          (case stage_lookup (stages (state this)) stage of
             None \<Rightarrow> stages (state this)
           | Some stageData \<Rightarrow>
               stage_store (stages (state this))
                 (clear_failed_analyses (clear_failed_uploads
                    (clear_failed_transcriptions (clear_failed_downloads stageData))))),
        last_updated := now\<rparr>"
  by (simp add: retryFailed_def state_after_saveState Let_def)

text \<open>
  C1. \<open>retryFailed\<close> with the name of one of the four call stages empties the failure
  map of that stage and nothing else: \<open>retryFailed('download_audio')\<close> empties
  \<open>failed_downloads\<close> and leaves \<open>failed_transcriptions\<close>, \<open>failed_uploads\<close> and
  \<open>failed_analyses\<close> as they were, and for each of \<open>download_audio\<close>, \<open>transcribe\<close>,
  \<open>upload_audio\<close> and \<open>analyze\<close> the document after the call is the document before
  it with that one failure map empty and the time of the save.
\<close>

theorem retryFailed_clears_named_stage_only:
  fixes rt now w this
  defines "before \<equiv> stages (state this)"
  defines "after \<equiv> \<lambda>stage. state (object_after (retryFailed rt now stage (w, this)))"
  shows "failed_downloads (download_audio (stages (after ''download_audio''))) = []
       \<and> failed_transcriptions (transcribe (stages (after ''download_audio''))) =
           failed_transcriptions (transcribe before)
       \<and> failed_uploads (upload_audio (stages (after ''download_audio''))) =
           failed_uploads (upload_audio before)
       \<and> failed_analyses (analyze (stages (after ''download_audio''))) =
           failed_analyses (analyze before)
       \<and> after ''download_audio'' =
           (state this)
             \<lparr>stages := before\<lparr>download_audio :=
                 (download_audio before)\<lparr>failed_downloads := []\<rparr>\<rparr>,
              last_updated := now\<rparr>
       \<and> after ''transcribe'' =
           (state this)
             \<lparr>stages := before\<lparr>transcribe :=
                 (transcribe before)\<lparr>failed_transcriptions := []\<rparr>\<rparr>,
              last_updated := now\<rparr>
       \<and> after ''upload_audio'' =
           (state this)
             \<lparr>stages := before\<lparr>upload_audio :=
                 (upload_audio before)\<lparr>failed_uploads := []\<rparr>\<rparr>,
              last_updated := now\<rparr>
       \<and> after ''analyze'' =
           (state this)
             \<lparr>stages := before\<lparr>analyze :=
                 (analyze before)\<lparr>failed_analyses := []\<rparr>\<rparr>,
              last_updated := now\<rparr>"
  unfolding before_def after_def
  by (simp add: state_after_retryFailed stage_lookup_def delete_each_empty)

section \<open>What the state updates leave of the stage records\<close>

lemma stages_after_markDateRangeProcessed:
  "stages (state (object_after (markDateRangeProcessed rt now startDate endDate callCount ws))) =
     (stages (state (snd ws)))\<lparr>get_call_ids :=
        (get_call_ids (stages (state (snd ws))))
          \<lparr>processed_date_ranges :=
             processed_date_ranges (get_call_ids (stages (state (snd ws)))) @
               [\<lparr>start_date = startDate, end_date = endDate,
                 call_count = callCount, processed_at = now\<rparr>],
           total_calls_extracted :=
             total_calls_extracted (get_call_ids (stages (state (snd ws)))) + callCount,
           last_run := Some now\<rparr>\<rparr>"
  by (cases ws) (simp add: markDateRangeProcessed_def stages_after_saveState Let_def)

lemma stages_after_markAudioDownloaded:
  "stages (state (object_after (markAudioDownloaded rt now callId brokerId fname fpath ws))) =
     (stages (state (snd ws)))\<lparr>download_audio :=
        (download_audio (stages (state (snd ws))))
          \<lparr>downloaded_files :=
             obj_set (downloaded_files (download_audio (stages (state (snd ws))))) callId
               \<lparr>status = ''completed'', details = DownloadDetails brokerId fname fpath,
                completed_at = now\<rparr>,
           total_downloaded := total_downloaded (download_audio (stages (state (snd ws)))) + 1\<rparr>\<rparr>"
  by (cases ws) (simp add: markAudioDownloaded_def stages_after_saveState Let_def)

lemma stages_after_markAudioDownloadFailed:
  "stages (state (object_after (markAudioDownloadFailed rt now callId err ws))) =
     (stages (state (snd ws)))\<lparr>download_audio :=
        (download_audio (stages (state (snd ws))))
          \<lparr>failed_downloads :=
             obj_set (failed_downloads (download_audio (stages (state (snd ws))))) callId
               \<lparr>error = err, failed_at = now\<rparr>\<rparr>\<rparr>"
  by (cases ws) (simp add: markAudioDownloadFailed_def stages_after_saveState Let_def)

lemma stages_after_markTranscribed:
  "stages (state (object_after (markTranscribed rt now callId fname transcriptPath ws))) =
     (stages (state (snd ws)))\<lparr>transcribe :=
        (transcribe (stages (state (snd ws))))
          \<lparr>transcribed_files :=
             obj_set (transcribed_files (transcribe (stages (state (snd ws))))) callId
               \<lparr>status = ''completed'', details = TranscribeDetails fname transcriptPath,
                completed_at = now\<rparr>,
           total_transcribed := total_transcribed (transcribe (stages (state (snd ws)))) + 1\<rparr>\<rparr>"
  by (cases ws) (simp add: markTranscribed_def stages_after_saveState Let_def)

lemma stages_after_markTranscriptionFailed:
  "stages (state (object_after (markTranscriptionFailed rt now callId err ws))) =
     (stages (state (snd ws)))\<lparr>transcribe :=
        (transcribe (stages (state (snd ws))))
          \<lparr>failed_transcriptions :=
             obj_set (failed_transcriptions (transcribe (stages (state (snd ws))))) callId
               \<lparr>error = err, failed_at = now\<rparr>\<rparr>\<rparr>"
  by (cases ws) (simp add: markTranscriptionFailed_def stages_after_saveState Let_def)

lemma stages_after_markAudioUploaded:
  "stages (state (object_after (markAudioUploaded rt now callId bubbleUrl ws))) =
     (stages (state (snd ws)))\<lparr>upload_audio :=
        (upload_audio (stages (state (snd ws))))
          \<lparr>uploaded_files :=
             obj_set (uploaded_files (upload_audio (stages (state (snd ws))))) callId
               \<lparr>status = ''completed'', details = UploadDetails bubbleUrl,
                completed_at = now\<rparr>,
           total_uploaded := total_uploaded (upload_audio (stages (state (snd ws)))) + 1\<rparr>\<rparr>"
  by (cases ws) (simp add: markAudioUploaded_def stages_after_saveState Let_def)

lemma stages_after_markAudioUploadFailed:
  "stages (state (object_after (markAudioUploadFailed rt now callId err ws))) =
     (stages (state (snd ws)))\<lparr>upload_audio :=
        (upload_audio (stages (state (snd ws))))
          \<lparr>failed_uploads :=
             obj_set (failed_uploads (upload_audio (stages (state (snd ws))))) callId
               \<lparr>error = err, failed_at = now\<rparr>\<rparr>\<rparr>"
  by (cases ws) (simp add: markAudioUploadFailed_def stages_after_saveState Let_def)

lemma stages_after_markAnalyzed:
  "stages (state (object_after (markAnalyzed rt now callId (sent, rating, disp) ws))) =
     (stages (state (snd ws)))\<lparr>analyze :=
        (analyze (stages (state (snd ws))))
          \<lparr>analyzed_calls :=
             obj_set (analyzed_calls (analyze (stages (state (snd ws))))) callId
               \<lparr>status = ''completed'', details = AnalyzeDetails sent rating disp,
                completed_at = now\<rparr>,
           total_analyzed := total_analyzed (analyze (stages (state (snd ws)))) + 1\<rparr>\<rparr>"
  by (cases ws) (simp add: markAnalyzed_def stages_after_saveState Let_def)

lemma stages_after_markAnalysisFailed:
  "stages (state (object_after (markAnalysisFailed rt now callId err ws))) =
     (stages (state (snd ws)))\<lparr>analyze :=
        (analyze (stages (state (snd ws))))
          \<lparr>failed_analyses :=
             obj_set (failed_analyses (analyze (stages (state (snd ws))))) callId
               \<lparr>error = err, failed_at = now\<rparr>\<rparr>\<rparr>"
  by (cases ws) (simp add: markAnalysisFailed_def stages_after_saveState Let_def)

lemmas stages_after_mark =
  stages_after_markDateRangeProcessed
  stages_after_markAudioDownloaded stages_after_markAudioDownloadFailed
  stages_after_markTranscribed stages_after_markTranscriptionFailed
  stages_after_markAudioUploaded stages_after_markAudioUploadFailed
  stages_after_markAnalyzed stages_after_markAnalysisFailed

lemmas js_object_eval =
  obj_set_def obj_get_def obj_keys_def obj_values_def hasOwnProperty_def obj_delete_def
  set_add_def array_index_def is_digit_def digits_val_def status_completed_def

lemmas example_eval = fresh_def default_state_def empty_disk_def null_runtime_def

section \<open>Running totals\<close>



section \<open>Success and failure entries\<close>

text \<open>
  C3 (as the code has it). After a failure mark followed by the success mark of the same
  stage and call id, the call counts as completed for the stage; the success mark
  leaves every failure map as it was, so \<open>getFailedItems\<close> returns what it returned
  before the success mark, and the call id is still in the failure map of the stage.
\<close>

theorem success_mark_keeps_failure_entry:
  fixes rt w this callId now1 now2 err brokerId fname fpath tpath url sent rating disp
  defines "d1 \<equiv> markAudioDownloadFailed rt now1 callId err (w, this)"
  defines "d2 \<equiv> markAudioDownloaded rt now2 callId brokerId fname fpath
                   (world_after d1, object_after d1)"
  defines "t1 \<equiv> markTranscriptionFailed rt now1 callId err (w, this)"
  defines "t2 \<equiv> markTranscribed rt now2 callId fname tpath (world_after t1, object_after t1)"
  defines "u1 \<equiv> markAudioUploadFailed rt now1 callId err (w, this)"
  defines "u2 \<equiv> markAudioUploaded rt now2 callId url (world_after u1, object_after u1)"
  defines "a1 \<equiv> markAnalysisFailed rt now1 callId err (w, this)"
  defines "a2 \<equiv> markAnalyzed rt now2 callId (sent, rating, disp)
                   (world_after a1, object_after a1)"
  shows "isAudioDownloaded (object_after d2) callId
       \<and> getFailedItems (object_after d2) = getFailedItems (object_after d1)
       \<and> callId \<in> set (obj_keys (failed_downloads (download_audio (stages (state (object_after d2))))))
       \<and> isTranscribed (object_after t2) callId
       \<and> getFailedItems (object_after t2) = getFailedItems (object_after t1)
       \<and> callId \<in> set (obj_keys (failed_transcriptions (transcribe (stages (state (object_after t2))))))
       \<and> isAudioUploaded (object_after u2) callId
       \<and> getFailedItems (object_after u2) = getFailedItems (object_after u1)
       \<and> callId \<in> set (obj_keys (failed_uploads (upload_audio (stages (state (object_after u2))))))
       \<and> isAnalyzed (object_after a2) callId
       \<and> getFailedItems (object_after a2) = getFailedItems (object_after a1)
       \<and> callId \<in> set (obj_keys (failed_analyses (analyze (stages (state (object_after a2))))))"
  unfolding d1_def d2_def t1_def t2_def u1_def u2_def a1_def a2_def
  by (simp add: stages_after_mark isAudioDownloaded_def isTranscribed_def isAudioUploaded_def
        isAnalyzed_def status_completed_obj_set getFailedItems_def keys_obj_set)

text \<open>
  C3 as stated (the call id no longer appears in \<open>getFailedItems\<close>) fails: on a fresh
  object, after \<open>markAudioDownloadFailed\<close> and \<open>markAudioDownloaded\<close> for call \<open>C1\<close>
  the call is downloaded and \<open>failed_downloads\<close> is still \<open>[C1]\<close>.
\<close>

theorem failed_then_downloaded_still_listed:
  "isAudioDownloaded (object_after download_retried) ''C1''
   \<and> obj_get (getFailedItems (object_after download_retried)) ''failed_downloads'' =
       Some [''C1'']
   \<and> obj_keys (downloaded_files (download_audio (stages (state (object_after download_retried)))))
       = [''C1'']
   \<and> obj_keys (failed_downloads (download_audio (stages (state (object_after download_retried)))))
       = [''C1'']"
  by (simp add: download_failed_def download_retried_def stages_after_mark isAudioDownloaded_def
        getFailedItems_def js_object_eval example_eval)

section \<open>Calls ready for a stage\<close>

lemma run_all_Cons: "run_all (step # steps) ws = run_all steps (snd (step ws))"
  by (simp add: run_all_def)

lemma run_all_Nil: "run_all [] ws = ws"
  by (simp add: run_all_def)

lemma snd_call: "snd r = (world_after r, object_after r)"
  by (simp add: world_after_def object_after_def)

lemma stages_abc:
  "stages (state abc) =
     \<lparr>get_call_ids =
        \<lparr>processed_date_ranges = [], total_calls_extracted = 0, last_run = None\<rparr>,
      download_audio =
        \<lparr>downloaded_files =
           [(''A'', \<lparr>status = ''completed'',
                     details = DownloadDetails ''B1'' ''B1_A.wav'' ''/tmp/B1_A.wav'',
                     completed_at = ''2025-01-01T00:00:01.000Z''\<rparr>),
            (''B'', \<lparr>status = ''completed'',
                     details = DownloadDetails ''B1'' ''B1_B.wav'' ''/tmp/B1_B.wav'',
                     completed_at = ''2025-01-01T00:00:02.000Z''\<rparr>),
            (''C'', \<lparr>status = ''completed'',
                     details = DownloadDetails ''B1'' ''B1_C.wav'' ''/tmp/B1_C.wav'',
                     completed_at = ''2025-01-01T00:00:03.000Z''\<rparr>)],
         failed_downloads = [], total_downloaded = 3\<rparr>,
      transcribe =
        \<lparr>transcribed_files =
           [(''A'', \<lparr>status = ''completed'',
                     details = TranscribeDetails ''B1_A.wav'' ''/tmp/B1_A.txt'',
                     completed_at = ''2025-01-01T00:00:04.000Z''\<rparr>),
            (''B'', \<lparr>status = ''completed'',
                     details = TranscribeDetails ''B1_B.wav'' ''/tmp/B1_B.txt'',
                     completed_at = ''2025-01-01T00:00:05.000Z''\<rparr>)],
         failed_transcriptions = [], total_transcribed = 2\<rparr>,
      upload_audio =
        \<lparr>uploaded_files =
           [(''A'', \<lparr>status = ''completed'',
                     details = UploadDetails ''https://example.org/A.wav'',
                     completed_at = ''2025-01-01T00:00:06.000Z''\<rparr>)],
         failed_uploads = [], total_uploaded = 1\<rparr>,
      analyze = \<lparr>analyzed_calls = [], failed_analyses = [], total_analyzed = 0\<rparr>\<rparr>"
  unfolding abc_def abc_steps_def run_all_Cons run_all_Nil
  by (simp add: snd_call stages_after_mark js_object_eval example_eval)

lemma allCalls_abc: "allCalls abc = [''A'', ''B'', ''C'']"
  by (simp add: allCalls_def stages_abc js_object_eval)

text \<open>
  C4. \<open>getCallsForProcessing\<close> starts from the calls whose download entry is completed
  and returns, without repetition: for \<open>transcribe\<close> exactly those not yet transcribed,
  for \<open>upload_audio\<close> exactly those not yet uploaded, for \<open>analyze\<close> exactly those
  transcribed and uploaded and not yet analyzed. With A downloaded, transcribed and
  uploaded, B downloaded and transcribed, and C downloaded only, \<open>analyze\<close> gives
  \<open>[A]\<close> and \<open>upload_audio\<close> gives \<open>[B, C]\<close>.
\<close>

theorem getCallsForProcessing_readiness:
  "set (getCallsForProcessing this ''transcribe'') =
     {c. isAudioDownloaded this c \<and> \<not> isTranscribed this c}
   \<and> set (getCallsForProcessing this ''upload_audio'') =
     {c. isAudioDownloaded this c \<and> \<not> isAudioUploaded this c}
   \<and> set (getCallsForProcessing this ''analyze'') =
     {c. isAudioDownloaded this c \<and> isTranscribed this c \<and> isAudioUploaded this c
          \<and> \<not> isAnalyzed this c}
   \<and> distinct (getCallsForProcessing this ''transcribe'')
   \<and> distinct (getCallsForProcessing this ''upload_audio'')
   \<and> distinct (getCallsForProcessing this ''analyze'')
   \<and> getCallsForProcessing abc ''analyze'' = [''A'']
   \<and> getCallsForProcessing abc ''upload_audio'' = [''B'', ''C'']"
proof -
  have d: "distinct (filter P (allCalls this))" for P
    by (simp add: distinct_allCalls)
  have ex1: "getCallsForProcessing abc ''analyze'' = [''A'']"
    by (simp add: getCallsForProcessing_def allCalls_abc isTranscribed_def isAudioUploaded_def
          isAnalyzed_def stages_abc js_object_eval)
  have ex2: "getCallsForProcessing abc ''upload_audio'' = [''B'', ''C'']"
    by (simp add: getCallsForProcessing_def allCalls_abc isAudioUploaded_def
          stages_abc js_object_eval)
  show ?thesis
    unfolding ex1 ex2 by (simp add: getCallsForProcessing_def d set_allCalls)
qed

text \<open>
  C10. For a stage string other than \<open>transcribe\<close>, \<open>upload_audio\<close> and \<open>analyze\<close>
  (an unknown or the empty string also) \<open>getCallsForProcessing\<close> returns the baseline
  with no filter: every call whose download entry is completed, each once.
\<close>

theorem getCallsForProcessing_other_stage:
  assumes "stage \<noteq> ''transcribe''" and "stage \<noteq> ''upload_audio''" and "stage \<noteq> ''analyze''"
  shows "getCallsForProcessing this stage = allCalls this
       \<and> set (getCallsForProcessing this stage) = {c. isAudioDownloaded this c}
       \<and> distinct (getCallsForProcessing this stage)"
  using assms by (simp add: getCallsForProcessing_def set_allCalls distinct_allCalls)

text \<open>For calls A, B and C above, the stage names \<open>download_audio\<close> and the empty
  string both give all three calls.\<close>

theorem getCallsForProcessing_other_stage_witness:
  "getCallsForProcessing abc ''download_audio'' = [''A'', ''B'', ''C'']
   \<and> getCallsForProcessing abc [] = [''A'', ''B'', ''C'']"
  using getCallsForProcessing_other_stage [of "''download_audio''" abc]
    getCallsForProcessing_other_stage [of "[]" abc]
  by (simp add: allCalls_abc)

section \<open>Processed date ranges\<close>

text \<open>
  C8. \<open>isDateRangeProcessed(start, end)\<close> is true exactly when some entry of
  \<open>processed_date_ranges\<close> has \<open>start_date\<close> equal to \<open>start\<close> and \<open>end_date\<close> equal
  to \<open>end\<close> as strings. Accordingly, after \<open>markDateRangeProcessed\<close> the ranges that
  count as processed are the marked pair of bounds and those processed before, and no
  other range, overlapping or contained.
\<close>

theorem isDateRangeProcessed_exact_match:
  "(isDateRangeProcessed this startDate endDate \<longleftrightarrow>
      (\<exists>range \<in> set (processed_date_ranges (get_call_ids (stages (state this)))).
          start_date range = startDate \<and> end_date range = endDate))
   \<and> (isDateRangeProcessed
        (object_after (markDateRangeProcessed rt now markedStart markedEnd callCount (w, this)))
        startDate endDate \<longleftrightarrow>
      (markedStart = startDate \<and> markedEnd = endDate)
      \<or> isDateRangeProcessed this startDate endDate)"
  by (auto simp: isDateRangeProcessed_def Let_def list_ex_iff stages_after_mark)

text \<open>After January 2025 is marked on a fresh object, that exact pair of bounds is
  processed; a range inside it, a range overlapping it and the same bounds with a
  trailing blank are not.\<close>

theorem isDateRangeProcessed_exact_match_witness:
  "(let january = object_after (markDateRangeProcessed null_runtime ''2025-02-01T00:00:00.000Z''
                    ''2025-01-01'' ''2025-01-31'' 5 (empty_disk, fresh))
    in isDateRangeProcessed january ''2025-01-01'' ''2025-01-31''
     \<and> \<not> isDateRangeProcessed january ''2025-01-01'' ''2025-01-15''
     \<and> \<not> isDateRangeProcessed january ''2025-01-15'' ''2025-02-15''
     \<and> \<not> isDateRangeProcessed january ''2025-01-01'' ''2025-01-31 '')"
  using isDateRangeProcessed_exact_match [of fresh _ _ null_runtime
      "''2025-02-01T00:00:00.000Z''" "''2025-01-01''" "''2025-01-31''" 5 empty_disk]
  by (simp add: Let_def isDateRangeProcessed_def example_eval)

section \<open>Completion rate\<close>

lemma three_tenths: "toFixed1 (js_mul (js_div 3 10) 100) = ''30.0''"
  by code_simp

lemma stages_three_of_ten:
  "total_calls_extracted (get_call_ids (stages (state three_of_ten))) = 10
   \<and> total_analyzed (analyze (stages (state three_of_ten))) = 3"
  unfolding three_of_ten_def run_all_Cons run_all_Nil
  by (simp add: snd_call stages_after_mark example_eval)

text \<open>
  C6. \<open>getProcessingStats\<close> has no failing branch and does not divide when nothing was
  extracted: with \<open>total_calls_extracted = 0\<close> (or below) the completion rate is the
  string \<open>0%\<close>; with ten calls extracted and three analyzed it is \<open>30.0%\<close>; in general,
  for a positive number of extracted calls, it is the double \<open>analyzed / extracted * 100\<close>
  written with one digit after the point, followed by the percent sign.
\<close>

theorem completion_rate_guarded:
  fixes this
  defines "extracted \<equiv> total_calls_extracted (get_call_ids (stages (state this)))"
  defines "done \<equiv> total_analyzed (analyze (stages (state this)))"
  shows "(extracted = 0 \<longrightarrow> completion_rate (getProcessingStats this) = ''0%'')
       \<and> (extracted = 10 \<and> done = 3 \<longrightarrow> completion_rate (getProcessingStats this) = ''30.0%'')
       \<and> (extracted \<le> 0 \<longrightarrow> completion_rate (getProcessingStats this) = ''0%'')
       \<and> (0 < extracted \<longrightarrow>
            completion_rate (getProcessingStats this) =
              toFixed1 (js_mul (js_div (of_int done) (of_int extracted)) 100) @ ''%'')"
  unfolding extracted_def done_def
  by (simp add: getProcessingStats_def Let_def three_tenths)

text \<open>A fresh object has the rate \<open>0%\<close>; after one date range of ten calls and three
  analyzed calls the rate is \<open>30.0%\<close>.\<close>

theorem completion_rate_guarded_witness:
  "completion_rate (getProcessingStats fresh) = ''0%''
   \<and> completion_rate (getProcessingStats three_of_ten) = ''30.0%''"
  using completion_rate_guarded [of fresh] completion_rate_guarded [of three_of_ten]
  by (simp add: stages_three_of_ten example_eval)

section \<open>Loading a state file that is not JSON\<close>

lemmas fs_eval =
  existsSync_def mkdirSync_recursive_def readFileSync_def writeFileSync_def renameSync_def
  ensure_dir_def basename_def dirname_def warn_load_def

lemma ensure_dir_error: "ensure_dir w dir = Inl e \<Longrightarrow> e = EACCES"
  by (auto simp: ensure_dir_def mkdirSync_recursive_def existsSync_def split: if_splits)

lemma ensure_each_error: "ensure_each ds w = (Inl e, w') \<Longrightarrow> e = EACCES"
proof (induction ds arbitrary: w)
  case Nil
  then show ?case by simp
next
  case (Cons d ds)
  then show ?case
    by (auto split: sum.splits dest: ensure_dir_error)
qed

lemma loadState_unparseable:
  assumes "files w sfile = Some text" and "JSON_parse rt text = Inl msg"
  shows "loadState rt now sfile w =
           (default_state now,
            warn_load w (if sfile \<in> denied w then message EACCES else msg))"
  using assms by (simp add: loadState_def existsSync_def readFileSync_def)

text \<open>
  C7. When the state file exists and its text is not JSON, loading does not pass the
  parse error on: \<open>loadState\<close> returns the default document (empty stage maps, all
  totals zero, empty archive lists) and writes one warning to the console. The
  constructor then either returns an object holding that default document or ends with
  the permission error of a directory it could not create, never with the parse error.
\<close>

theorem unparseable_state_file_gives_default:
  assumes "sfile = path_join [bdir, ''logs'', ''pipeline_state.json'']"
      and "files w sfile = Some text"
      and "JSON_parse rt text = Inl msg"
  shows "loadState rt now sfile w =
           (default_state now,
            w\<lparr>console := console w @
                [Warn (''Could not load pipeline state: '' @
                         (if sfile \<in> denied w then message EACCES else msg))]\<rparr>)
       \<and> (case constructor rt now bdir w of
             (Inr this, w') \<Rightarrow> state this = default_state now \<and> stateFile this = sfile
           | (Inl e, w') \<Rightarrow> e = EACCES)
       \<and> stages (default_state now) =
            \<lparr>get_call_ids =
               \<lparr>processed_date_ranges = [], total_calls_extracted = 0, last_run = None\<rparr>,
             download_audio =
               \<lparr>downloaded_files = [], failed_downloads = [], total_downloaded = 0\<rparr>,
             transcribe =
               \<lparr>transcribed_files = [], failed_transcriptions = [], total_transcribed = 0\<rparr>,
             upload_audio =
               \<lparr>uploaded_files = [], failed_uploads = [], total_uploaded = 0\<rparr>,
             analyze =
               \<lparr>analyzed_calls = [], failed_analyses = [], total_analyzed = 0\<rparr>\<rparr>
       \<and> archived_files (default_state now) =
            [(''call_ids'', []), (''audio'', []), (''transcripts'', [])]"
proof -
  have load: "loadState rt now sfile w =
      (default_state now, warn_load w (if sfile \<in> denied w then message EACCES else msg))"
    using assms(2,3) by (rule loadState_unparseable)
  define w1 where "w1 = warn_load w (if sfile \<in> denied w then message EACCES else msg)"
  define adir where "adir = path_join [bdir, ''archive'']"
  have ctor: "case constructor rt now bdir w of
             (Inr this, w') \<Rightarrow> state this = default_state now \<and> stateFile this = sfile
           | (Inl e, w') \<Rightarrow> e = EACCES"
  proof -
    obtain res w2 where ens: "ensureDirectories bdir adir w1 = (res, w2)"
      by (cases "ensureDirectories bdir adir w1")
    show ?thesis
    proof (cases res)
      case (Inl e)
      have "e = EACCES"
        using ens unfolding ensureDirectories_def Inl by (rule ensure_each_error)
      with Inl ens load show ?thesis
        unfolding constructor_def Let_def assms(1) [symmetric] adir_def [symmetric]
        by (simp add: w1_def)
    next
      case (Inr u)
      with ens load show ?thesis
        unfolding constructor_def Let_def assms(1) [symmetric] adir_def [symmetric]
        by (simp add: w1_def)
    qed
  qed
  show ?thesis
    using load ctor by (simp add: warn_load_def default_state_def)
qed

text \<open>On the disk with the cut-off state file the constructor returns the object with
  the default document, having warned once and created the archive directories.\<close>

theorem unparseable_state_file_gives_default_witness:
  "constructor null_runtime ''2025-01-05T00:00:00.000Z'' ''/base'' corrupt_disk =
     (Inr \<lparr>baseDir = ''/base'', stateFile = ''/base/logs/pipeline_state.json'',
           archiveDir = ''/base/archive'',
           state = default_state ''2025-01-05T00:00:00.000Z''\<rparr>,
      corrupt_disk
        \<lparr>dirs := dirs corrupt_disk \<union>
           {''/base/archive'', ''/base/archive/call_ids'', ''/base/archive/audio'',
            ''/base/archive/transcripts'', ''/base/archive/failed''},
         console := [Warn ''Could not load pipeline state: Unexpected end of JSON input'']\<rparr>)"
proof -
  have p: "''/base/logs/pipeline_state.json'' = path_join [''/base'', ''logs'', ''pipeline_state.json'']"
    by simp
  have f: "files corrupt_disk ''/base/logs/pipeline_state.json'' = Some ''{ version: 1.0''"
    by (simp add: corrupt_disk_def)
  have j: "JSON_parse null_runtime ''{ version: 1.0'' = Inl ''Unexpected end of JSON input''"
    by (simp add: null_runtime_def)
  from unparseable_state_file_gives_default [OF p f j, of "''2025-01-05T00:00:00.000Z''"]
  have l: "loadState null_runtime ''2025-01-05T00:00:00.000Z'' ''/base/logs/pipeline_state.json''
             corrupt_disk =
           (default_state ''2025-01-05T00:00:00.000Z'',
            corrupt_disk\<lparr>console :=
               [Warn ''Could not load pipeline state: Unexpected end of JSON input'']\<rparr>)"
    by (simp add: corrupt_disk_def)
  show ?thesis
    apply (simp add: constructor_def Let_def l ensureDirectories_def)
    apply (simp add: fs_eval corrupt_disk_def ancestors_def insert_commute)
    done
qed

section \<open>Saving and loading again\<close>

lemma saveState_returned:
  assumes "result_of (saveState rt now (w, this)) = Inr u"
  shows "world_after (saveState rt now (w, this)) =
           w\<lparr>files := (files w)(stateFile this \<mapsto>
                 JSON_stringify rt ((state this)\<lparr>last_updated := now\<rparr>))\<rparr>"
    and "stateFile this \<notin> denied w"
  using assms
  by (auto simp: saveState_def result_of_def world_after_def Let_def writeFileSync_def
           split: sum.splits if_splits)

lemma object_after_saveState:
  "object_after (saveState rt now (w, this)) = this\<lparr>state := (state this)\<lparr>last_updated := now\<rparr>\<rparr>"
  by (simp add: saveState_def object_after_def Let_def split: sum.splits)

lemma loadState_after_saveState:
  fixes rt now w this later
  defines "saved \<equiv> saveState rt now (w, this)"
  assumes written: "result_of saved = Inr ()"
      and codec: "JSON_parse rt (JSON_stringify rt (state (object_after saved))) =
                    Inr (state (object_after saved))"
  shows "state (object_after saved) = (state this)\<lparr>last_updated := now\<rparr>
       \<and> files (world_after saved) (stateFile this) =
            Some (JSON_stringify rt (state (object_after saved)))
       \<and> fst (loadState rt later (stateFile this) (world_after saved)) =
            state (object_after saved)"
proof -
  have st: "state (object_after saved) = (state this)\<lparr>last_updated := now\<rparr>"
    unfolding saved_def by (rule state_after_saveState)
  have wa: "world_after saved =
      w\<lparr>files := (files w)(stateFile this \<mapsto> JSON_stringify rt (state (object_after saved)))\<rparr>"
    using saveState_returned(1) [of rt now w this "()"] written
    unfolding saved_def [symmetric] st by simp
  have nd: "stateFile this \<notin> denied w"
    using saveState_returned(2) [of rt now w this "()"] written
    unfolding saved_def [symmetric] by simp
  have "fst (loadState rt later (stateFile this) (world_after saved)) = state (object_after saved)"
    unfolding wa using nd codec
    by (simp add: loadState_def existsSync_def readFileSync_def)
  with st wa show ?thesis by simp
qed

section \<open>Archiving a file\<close>

lemma under_append: "lies_under d (d @ CHR ''/'' # rest)"
  by (simp add: lies_under_def)

lemma under_longer: "lies_under d p \<Longrightarrow> length d < length p"
proof -
  assume "lies_under d p"
  then have "length (take (Suc (length d)) p) = Suc (length d)"
    by (simp add: lies_under_def)
  then show ?thesis by simp
qed

lemma under_neq: "lies_under d p \<Longrightarrow> d \<noteq> p"
  using under_longer by fastforce

lemma under_split: "lies_under d p \<Longrightarrow> p = d @ drop (length d) p \<and> hd (drop (length d) p) = CHR ''/''"
proof -
  assume u: "lies_under d p"
  then have t: "take (Suc (length d)) p = d @ ''/''" by (simp add: lies_under_def)
  have l: "length d < length p" using u by (rule under_longer)
  have "take (length d) p = take (length d) (take (Suc (length d)) p)" by simp
  also have "\<dots> = d" unfolding t by simp
  finally have td: "take (length d) p = d" .
  have "p = take (length d) p @ drop (length d) p" by simp
  with td have p: "p = d @ drop (length d) p" by simp
  have "take (Suc (length d)) p = take (length d) p @ [p ! length d]"
    using l by (simp add: take_Suc_conv_app_nth)
  with t td have "p ! length d = CHR ''/''" by simp
  moreover have "hd (drop (length d) p) = p ! length d"
    using l by (simp add: hd_drop_conv_nth)
  ultimately show ?thesis using p by simp
qed

lemma rebase_under:
  assumes "lies_under src p" and "rebase src dst p = src"
  shows "lies_under dst src"
proof -
  from under_split [OF assms(1)] obtain rest where
    d: "drop (length src) p = CHR ''/'' # rest"
    using under_longer [OF assms(1)]
    by (cases "drop (length src) p") auto
  from assms(2) d have "src = dst @ CHR ''/'' # rest" by (simp add: rebase_def)
  then show ?thesis using under_append by simp
qed

lemma ancestors_from_prefix:
  "q \<in> set (ancestors_from seen cs) \<Longrightarrow>
   q = seen @ cs \<or> (\<exists>rest. seen @ cs = q @ CHR ''/'' # rest)"
proof (induction cs arbitrary: seen)
  case Nil
  then show ?case by simp
next
  case (Cons c cs)
  show ?case
  proof (cases "c = CHR ''/'' \<and> seen \<noteq> []")
    case True
    with Cons.prems have "q = seen \<or> q \<in> set (ancestors_from (seen @ [c]) cs)" by simp
    then show ?thesis
    proof
      assume "q = seen"
      with True show ?thesis by simp
    next
      assume "q \<in> set (ancestors_from (seen @ [c]) cs)"
      from Cons.IH [OF this] show ?thesis by simp
    qed
  next
    case False
    with Cons.prems have "q \<in> set (ancestors_from (seen @ [c]) cs)" by auto
    from Cons.IH [OF this] show ?thesis by simp
  qed
qed

lemma ancestor_under:
  assumes "q \<in> set (ancestors p)"
  shows "lies_under q (path_join [p, fname])"
proof -
  from assms have "q = p \<or> (\<exists>rest. p = q @ CHR ''/'' # rest)"
    using ancestors_from_prefix [of q "[]" p] by (simp add: ancestors_def)
  then show ?thesis
  proof
    assume "q = p"
    then show ?thesis by (simp add: lies_under_def)
  next
    assume "\<exists>rest. p = q @ CHR ''/'' # rest"
    then obtain rest where "p = q @ CHR ''/'' # rest" ..
    then show ?thesis by (simp add: lies_under_def)
  qed
qed

lemma ensure_dir_files: "ensure_dir w dir = Inr w1 \<Longrightarrow> files w1 = files w \<and> denied w1 = denied w"
  by (auto simp: ensure_dir_def mkdirSync_recursive_def split: if_splits)

lemma ensure_dir_dirs:
  "ensure_dir w dir = Inr w1 \<Longrightarrow> p \<in> dirs w1 \<Longrightarrow> p \<in> dirs w \<or> p \<in> set (ancestors dir)"
  by (auto simp: ensure_dir_def mkdirSync_recursive_def split: if_splits)

lemma renameSync_exists: "renameSync w1 src dst = Inr w2 \<Longrightarrow> existsSync w1 src"
  by (auto simp: renameSync_def existsSync_def split: if_splits option.splits)

lemma renameSync_missing: "\<not> existsSync w1 src \<Longrightarrow> \<exists>e. renameSync w1 src dst = Inl e"
  by (simp add: renameSync_def existsSync_def)

lemma renameSync_into_itself:
  "files w1 src = None \<Longrightarrow> lies_under src dst \<Longrightarrow> \<exists>e. renameSync w1 src dst = Inl e"
  by (auto simp: renameSync_def dest: under_neq)

lemma renameSync_directory:
  assumes "renameSync w1 src dst = Inr w2" and "files w1 src = None" and "src \<noteq> dst"
  shows "src \<in> dirs w1" and "\<not> lies_under dst src" and "\<not> lies_under src dst"
    and "files w1 dst = None"
    and "files w2 = (\<lambda>p. if lies_under dst p then files w1 (rebase dst src p)
                          else if lies_under src p then None
                          else files w1 p)"
    and "dirs w2 = {p \<in> dirs w1. p \<noteq> src \<and> \<not> lies_under src p}
                   \<union> rebase src dst ` {p \<in> dirs w1. p = src \<or> lies_under src p}"
  using assms by (auto simp: renameSync_def split: if_splits)

lemma renameSync_file:
  assumes "renameSync w1 src dst = Inr w2" and "files w1 src = Some text"
  shows "files w2 = ((files w1)(src := None))(dst \<mapsto> text)" and "dirs w2 = dirs w1"
  using assms by (auto simp: renameSync_def split: if_splits)

lemma renameSync_same:
  assumes "renameSync w1 src src = Inr w2" and "files w1 src = None"
  shows "w2 = w1" and "src \<in> dirs w1"
  using assms by (auto simp: renameSync_def split: if_splits)

lemma renameSync_destination:
  assumes mv: "renameSync w1 src dst = Inr w2"
  shows "files w2 dst = files w1 src" and "existsSync w2 dst"
proof -
  have "files w2 dst = files w1 src \<and> existsSync w2 dst"
  proof (cases "files w1 src")
    case (Some body)
    from renameSync_file [OF mv Some] show ?thesis
      by (simp add: Some existsSync_def)
  next
    case None
    show ?thesis
    proof (cases "src = dst")
      case True
      with renameSync_same [of w1 src w2] mv None show ?thesis
        by (simp add: existsSync_def)
    next
      case False
      note d = renameSync_directory [OF mv None False]
      have "lies_under dst dst = False" using under_neq by blast
      moreover have "dst \<in> dirs w2"
      proof -
        have "dst = rebase src dst src" by (simp add: rebase_def)
        moreover have "src \<in> {p \<in> dirs w1. p = src \<or> lies_under src p}" using d(1) by simp
        ultimately have "dst \<in> rebase src dst ` {p \<in> dirs w1. p = src \<or> lies_under src p}"
          by (rule image_eqI)
        then show ?thesis unfolding d(6) by simp
      qed
      ultimately show ?thesis
        using d(3,4) None by (simp add: d(5) existsSync_def)
    qed
  qed
  then show "files w2 dst = files w1 src" and "existsSync w2 dst" by simp_all
qed

lemma renameSync_source_gone:
  assumes mv: "renameSync w1 src dst = Inr w2" and neq: "src \<noteq> dst"
  shows "files w2 src = None" and "files w1 src = None \<Longrightarrow> src \<notin> dirs w2"
proof -
  show "files w2 src = None"
  proof (cases "files w1 src")
    case (Some body)
    from renameSync_file(1) [OF mv Some] neq show ?thesis by simp
  next
    case None
    note d = renameSync_directory [OF mv None neq]
    have "lies_under src src = False" using under_neq by blast
    with d(2) None show ?thesis by (simp add: d(5))
  qed
  show "src \<notin> dirs w2" if none: "files w1 src = None"
  proof
    note d = renameSync_directory [OF mv none neq]
    assume "src \<in> dirs w2"
    then have "src \<in> rebase src dst ` {p \<in> dirs w1. p = src \<or> lies_under src p}"
      unfolding d(6) by simp
    then obtain x where x: "src = rebase src dst x" and "x = src \<or> lies_under src x" by auto
    then show False
    proof (elim disjE)
      assume "x = src"
      with x neq show False by (simp add: rebase_def)
    next
      assume "lies_under src x"
      from rebase_under [OF this x [symmetric]] d(2) show False by simp
    qed
  qed
qed

lemma archive_failed_outcome:
  "result_of (archive_failed sourceFile e (w, this)) = Inr None
   \<and> object_after (archive_failed sourceFile e (w, this)) = this
   \<and> files (world_after (archive_failed sourceFile e (w, this))) = files w
   \<and> dirs (world_after (archive_failed sourceFile e (w, this))) = dirs w"
  by (simp add: archive_failed_def result_of_def object_after_def world_after_def)

lemma archiveFile_dir_failed:
  assumes "ensure_dir w (path_join [archiveDir this, category, takeWhile (\<lambda>c. c \<noteq> CHR ''T'') now])
             = Inl e"
  shows "archiveFile rt now sourceFile category callId (w, this) =
           archive_failed sourceFile e (w, this)"
  using assms by (simp add: archiveFile_def Let_def del: path_join.simps)

lemma archiveFile_move_failed:
  assumes "ensure_dir w (path_join [archiveDir this, category, takeWhile (\<lambda>c. c \<noteq> CHR ''T'') now])
             = Inr w1"
      and "renameSync w1 sourceFile
             (path_join [path_join [archiveDir this, category, takeWhile (\<lambda>c. c \<noteq> CHR ''T'') now],
                         basename sourceFile]) = Inl e"
  shows "archiveFile rt now sourceFile category callId (w, this) =
           archive_failed sourceFile e (w1, this)"
  using assms by (simp add: archiveFile_def Let_def del: path_join.simps)

lemma archiveFile_returned:
  fixes rt now sourceFile category callId w this
  defines "archivePath \<equiv> path_join [archiveDir this, category, takeWhile (\<lambda>c. c \<noteq> CHR ''T'') now]"
  defines "destinationFile \<equiv> path_join [archivePath, basename sourceFile]"
  defines "r \<equiv> archiveFile rt now sourceFile category callId (w, this)"
  assumes ret: "result_of r = Inr (Some p)"
  shows "\<exists>w1 w2 entries.
           ensure_dir w archivePath = Inr w1
         \<and> renameSync w1 sourceFile destinationFile = Inr w2
         \<and> obj_get (archived_files (state this)) category = Some entries
         \<and> p = destinationFile
         \<and> state (object_after r) =
             (state this)\<lparr>archived_files :=
                obj_set (archived_files (state this)) category
                  (entries @ [\<lparr>call_id = callId, original_filename = basename sourceFile,
                               archive_path = destinationFile, archived_at = now\<rparr>]),
              last_updated := now\<rparr>
         \<and> files (world_after r) =
             (files w2)(stateFile this \<mapsto> JSON_stringify rt (state (object_after r)))
         \<and> dirs (world_after r) = dirs w2"
proof (cases "ensure_dir w archivePath")
  case (Inl e)
  then have "r = archive_failed sourceFile e (w, this)"
    unfolding r_def archivePath_def by (rule archiveFile_dir_failed)
  with ret show ?thesis by (simp add: archive_failed_outcome)
next
  case dir: (Inr w1)
  show ?thesis
  proof (cases "renameSync w1 sourceFile destinationFile")
    case (Inl e)
    with dir have "r = archive_failed sourceFile e (w1, this)"
      unfolding r_def archivePath_def destinationFile_def by (rule archiveFile_move_failed)
    with ret show ?thesis by (simp add: archive_failed_outcome)
  next
    case mv: (Inr w2)
    show ?thesis
    proof (cases "obj_get (archived_files (state this)) category")
      case None
      with dir mv have "r = archive_failed sourceFile
          (TypeError ''Cannot read properties of undefined (reading push)'') (w2, this)"
        unfolding r_def archivePath_def destinationFile_def
        by (simp add: archiveFile_def Let_def del: path_join.simps)
      with ret show ?thesis by (simp add: archive_failed_outcome)
    next
      case (Some entries)
      define this1 where "this1 = this\<lparr>state := (state this)\<lparr>archived_files :=
          obj_set (archived_files (state this)) category
            (entries @ [\<lparr>call_id = callId, original_filename = basename sourceFile,
                         archive_path = destinationFile, archived_at = now\<rparr>])\<rparr>\<rparr>"
      define sv where "sv = saveState rt now (w2, this1)"
      have r_eq: "r = (case sv of
            (Inl e, w3, this2) \<Rightarrow> archive_failed sourceFile e (w3, this2)
          | (Inr u, w3, this2) \<Rightarrow>
              (Inr (Some destinationFile),
               w3\<lparr>console := console w3 @
                    [Log (''Archived: '' @ basename sourceFile @ '' -> '' @ category @ ''/''
                            @ takeWhile (\<lambda>c. c \<noteq> CHR ''T'') now @ ''/'')]\<rparr>,
               this2))"
        using dir mv Some
        unfolding r_def archivePath_def destinationFile_def sv_def this1_def
        by (simp add: archiveFile_def Let_def del: path_join.simps)
      obtain res w3 this2 where sv3: "sv = (res, w3, this2)" by (cases sv)
      show ?thesis
      proof (cases res)
        case (Inl e)
        with r_eq sv3 ret show ?thesis by (simp add: archive_failed_outcome)
      next
        case (Inr u)
        have this2: "this2 = this1\<lparr>state := (state this1)\<lparr>last_updated := now\<rparr>\<rparr>"
          using object_after_saveState [of rt now w2 this1] sv3
          unfolding sv_def by (simp add: object_after_def)
        have "result_of (saveState rt now (w2, this1)) = Inr u"
          using sv3 Inr unfolding sv_def by (simp add: result_of_def)
        from saveState_returned(1) [OF this]
        have w3: "w3 = w2\<lparr>files := (files w2)(stateFile this1 \<mapsto>
                 JSON_stringify rt ((state this1)\<lparr>last_updated := now\<rparr>))\<rparr>"
          using sv3 unfolding sv_def by (simp add: world_after_def)
        from r_eq sv3 Inr have r3: "r = (Inr (Some destinationFile),
               w3\<lparr>console := console w3 @
                    [Log (''Archived: '' @ basename sourceFile @ '' -> '' @ category @ ''/''
                            @ takeWhile (\<lambda>c. c \<noteq> CHR ''T'') now @ ''/'')]\<rparr>,
               this2)"
          by simp
        from ret r3 have "p = destinationFile" by (simp add: result_of_def)
        with dir mv Some r3 this2 w3 show ?thesis
          by (simp add: object_after_def world_after_def this1_def)
      qed
    qed
  qed
qed

lemma archiveFile_moved:
  fixes rt now sourceFile category callId w this
  defines "archivePath \<equiv> path_join [archiveDir this, category, takeWhile (\<lambda>c. c \<noteq> CHR ''T'') now]"
  defines "destinationFile \<equiv> path_join [archivePath, basename sourceFile]"
  defines "r \<equiv> archiveFile rt now sourceFile category callId (w, this)"
  assumes dir: "ensure_dir w archivePath = Inr w1"
      and mv: "renameSync w1 sourceFile destinationFile = Inr w2"
      and ent: "obj_get (archived_files (state this)) category = Some entries"
  shows "state (object_after r) =
           (state this)\<lparr>archived_files :=
              obj_set (archived_files (state this)) category
                (entries @ [\<lparr>call_id = callId, original_filename = basename sourceFile,
                             archive_path = destinationFile, archived_at = now\<rparr>]),
            last_updated := now\<rparr>"
proof -
  define this1 where "this1 = this\<lparr>state := (state this)\<lparr>archived_files :=
      obj_set (archived_files (state this)) category
        (entries @ [\<lparr>call_id = callId, original_filename = basename sourceFile,
                     archive_path = destinationFile, archived_at = now\<rparr>])\<rparr>\<rparr>"
  define sv where "sv = saveState rt now (w2, this1)"
  have r_eq: "r = (case sv of
        (Inl e, w3, this2) \<Rightarrow> archive_failed sourceFile e (w3, this2)
      | (Inr u, w3, this2) \<Rightarrow>
          (Inr (Some destinationFile),
           w3\<lparr>console := console w3 @
                [Log (''Archived: '' @ basename sourceFile @ '' -> '' @ category @ ''/''
                        @ takeWhile (\<lambda>c. c \<noteq> CHR ''T'') now @ ''/'')]\<rparr>,
           this2))"
    using dir mv ent
    unfolding r_def archivePath_def destinationFile_def sv_def this1_def
    by (simp add: archiveFile_def Let_def del: path_join.simps)
  obtain res w3 this2 where sv3: "sv = (res, w3, this2)" by (cases sv)
  have "this2 = this1\<lparr>state := (state this1)\<lparr>last_updated := now\<rparr>\<rparr>"
    using object_after_saveState [of rt now w2 this1] sv3
    unfolding sv_def by (simp add: object_after_def)
  moreover have "object_after r = this2"
    using r_eq sv3 by (cases res) (simp_all add: archive_failed_outcome, simp add: object_after_def)
  ultimately show ?thesis by (simp add: this1_def)
qed

lemma archiveFile_never_throws:
  "\<exists>res. result_of (archiveFile rt now sourceFile category callId (w, this)) = Inr res"
  by (auto simp: archiveFile_def Let_def archive_failed_def result_of_def
           split: sum.splits option.splits prod.splits
           simp del: path_join.simps)

lemma archive_transcript:
  "archiveFile null_runtime ''2025-01-02T09:30:00.000Z'' ''/base/output/transcripts/B1_C1.txt''
     ''transcripts'' (Some ''C1'') (transcript_disk, fresh) =
   (Inr (Some ''/base/archive/transcripts/2025-01-02/B1_C1.txt''),
    \<lparr>files = [''/base/archive/transcripts/2025-01-02/B1_C1.txt'' \<mapsto> ''Speaker A: hello'',
               ''/base/logs/pipeline_state.json'' \<mapsto> []],
     dirs = dirs transcript_disk \<union> {''/base/archive/transcripts/2025-01-02''},
     denied = {},
     console = [Log ''Archived: B1_C1.txt -> transcripts/2025-01-02/'']\<rparr>,
    fresh\<lparr>state := (state fresh)
       \<lparr>archived_files :=
          [(''call_ids'', []), (''audio'', []),
           (''transcripts'',
            [\<lparr>call_id = Some ''C1'', original_filename = ''B1_C1.txt'',
              archive_path = ''/base/archive/transcripts/2025-01-02/B1_C1.txt'',
              archived_at = ''2025-01-02T09:30:00.000Z''\<rparr>])],
        last_updated := ''2025-01-02T09:30:00.000Z''\<rparr>\<rparr>)"
  by (simp add: archiveFile_def Let_def fs_eval saveState_def transcript_disk_def
        js_object_eval example_eval ancestors_def insert_commute fun_upd_twist)

text \<open>
  C5. \<open>archiveFile\<close> never throws. When nothing exists at the source path, or the
  dated directory cannot be created, or the move fails, it returns \<open>null\<close>, the state
  document is unchanged and no file has moved. When it returns the destination path,
  the source existed, exactly one entry with the call id, the file name, the
  destination path and the time was appended to the list of the category, the lists of
  the other categories and the stage records are unchanged, the destination exists and
  holds the text of the source file, and, for a source path that is not already the
  archive destination and is not the state file, no file is at the source path any
  more (nor a directory, when a directory was archived). Whenever the move has
  succeeded and the document has a list for the category, the entry is in that list of
  the document in memory, also when the save after it fails.
\<close>

theorem archiveFile_outcomes:
  fixes rt now sourceFile category callId w this
  defines "archivePath \<equiv> path_join [archiveDir this, category, takeWhile (\<lambda>c. c \<noteq> CHR ''T'') now]"
  defines "destinationFile \<equiv> path_join [archivePath, basename sourceFile]"
  defines "r \<equiv> archiveFile rt now sourceFile category callId (w, this)"
  shows "(\<exists>res. result_of r = Inr res)
       \<and> (\<not> existsSync w sourceFile \<longrightarrow>
            result_of r = Inr None \<and> state (object_after r) = state this
            \<and> files (world_after r) = files w)
       \<and> ((\<exists>e. ensure_dir w archivePath = Inl e)
            \<or> (\<exists>w1 e. ensure_dir w archivePath = Inr w1
                      \<and> renameSync w1 sourceFile destinationFile = Inl e) \<longrightarrow>
            result_of r = Inr None \<and> state (object_after r) = state this
            \<and> files (world_after r) = files w)
       \<and> (\<forall>p. result_of r = Inr (Some p) \<longrightarrow>
            p = destinationFile
            \<and> existsSync w sourceFile
            \<and> (\<exists>entries.
                  obj_get (archived_files (state this)) category = Some entries
                \<and> obj_get (archived_files (state (object_after r))) category =
                    Some (entries @
                      [\<lparr>call_id = callId, original_filename = basename sourceFile,
                        archive_path = destinationFile, archived_at = now\<rparr>]))
            \<and> (\<forall>c. c \<noteq> category \<longrightarrow>
                  obj_get (archived_files (state (object_after r))) c =
                  obj_get (archived_files (state this)) c)
            \<and> stages (state (object_after r)) = stages (state this)
            \<and> existsSync (world_after r) destinationFile
            \<and> (destinationFile \<noteq> stateFile this \<longrightarrow>
                  files (world_after r) destinationFile = files w sourceFile)
            \<and> (sourceFile \<noteq> destinationFile \<and> sourceFile \<noteq> stateFile this \<longrightarrow>
                  files (world_after r) sourceFile = None
                  \<and> (files w sourceFile = None \<longrightarrow> sourceFile \<notin> dirs (world_after r))))
       \<and> (\<forall>w1 w2 entries.
              ensure_dir w archivePath = Inr w1
            \<and> renameSync w1 sourceFile destinationFile = Inr w2
            \<and> obj_get (archived_files (state this)) category = Some entries \<longrightarrow>
              obj_get (archived_files (state (object_after r))) category =
                Some (entries @
                  [\<lparr>call_id = callId, original_filename = basename sourceFile,
                    archive_path = destinationFile, archived_at = now\<rparr>]))"
proof -
  have never: "\<exists>res. result_of r = Inr res"
    unfolding r_def by (rule archiveFile_never_throws)
  have failed: "result_of r = Inr None \<and> state (object_after r) = state this
      \<and> files (world_after r) = files w"
    if "(\<exists>e. ensure_dir w archivePath = Inl e)
        \<or> (\<exists>w1 e. ensure_dir w archivePath = Inr w1
                  \<and> renameSync w1 sourceFile destinationFile = Inl e)"
    using that
  proof (elim disjE exE conjE)
    fix e assume "ensure_dir w archivePath = Inl e"
    then have "r = archive_failed sourceFile e (w, this)"
      unfolding r_def archivePath_def by (rule archiveFile_dir_failed)
    then show ?thesis by (simp add: archive_failed_outcome)
  next
    fix w1 e
    assume dir: "ensure_dir w archivePath = Inr w1"
      and mv: "renameSync w1 sourceFile destinationFile = Inl e"
    then have "r = archive_failed sourceFile e (w1, this)"
      unfolding r_def archivePath_def destinationFile_def by (rule archiveFile_move_failed)
    with ensure_dir_files [OF dir] show ?thesis by (simp add: archive_failed_outcome)
  qed
  have missing: "result_of r = Inr None \<and> state (object_after r) = state this
      \<and> files (world_after r) = files w"
    if none: "\<not> existsSync w sourceFile"
  proof (cases "ensure_dir w archivePath")
    case (Inl e)
    then show ?thesis by (intro failed) blast
  next
    case (Inr w1)
    from none have nf: "files w sourceFile = None" and nd: "sourceFile \<notin> dirs w"
      by (simp_all add: existsSync_def)
    from nf have nf1: "files w1 sourceFile = None"
      using ensure_dir_files [OF Inr] by simp
    have "\<exists>e. renameSync w1 sourceFile destinationFile = Inl e"
    proof (cases "sourceFile \<in> dirs w1")
      case False
      with nf1 have "\<not> existsSync w1 sourceFile" by (simp add: existsSync_def)
      then show ?thesis by (rule renameSync_missing)
    next
      case True
      with ensure_dir_dirs [OF Inr] nd have "sourceFile \<in> set (ancestors archivePath)"
        by blast
      then have "lies_under sourceFile destinationFile"
        unfolding destinationFile_def by (rule ancestor_under)
      with nf1 show ?thesis by (rule renameSync_into_itself)
    qed
    with Inr show ?thesis by (intro failed) blast
  qed
  have returned: "p = destinationFile
      \<and> existsSync w sourceFile
      \<and> (\<exists>entries.
            obj_get (archived_files (state this)) category = Some entries
          \<and> obj_get (archived_files (state (object_after r))) category =
              Some (entries @
                [\<lparr>call_id = callId, original_filename = basename sourceFile,
                  archive_path = destinationFile, archived_at = now\<rparr>]))
      \<and> (\<forall>c. c \<noteq> category \<longrightarrow>
            obj_get (archived_files (state (object_after r))) c =
            obj_get (archived_files (state this)) c)
      \<and> stages (state (object_after r)) = stages (state this)
      \<and> existsSync (world_after r) destinationFile
      \<and> (destinationFile \<noteq> stateFile this \<longrightarrow>
            files (world_after r) destinationFile = files w sourceFile)
      \<and> (sourceFile \<noteq> destinationFile \<and> sourceFile \<noteq> stateFile this \<longrightarrow>
            files (world_after r) sourceFile = None
            \<and> (files w sourceFile = None \<longrightarrow> sourceFile \<notin> dirs (world_after r)))"
    if ret: "result_of r = Inr (Some p)" for p
  proof -
    from archiveFile_returned [OF ret [unfolded r_def]]
    obtain w1 w2 entries where
          dir: "ensure_dir w archivePath = Inr w1"
      and mv: "renameSync w1 sourceFile destinationFile = Inr w2"
      and ent: "obj_get (archived_files (state this)) category = Some entries"
      and p: "p = destinationFile"
      and st: "state (object_after r) =
             (state this)\<lparr>archived_files :=
                obj_set (archived_files (state this)) category
                  (entries @ [\<lparr>call_id = callId, original_filename = basename sourceFile,
                               archive_path = destinationFile, archived_at = now\<rparr>]),
              last_updated := now\<rparr>"
      and fl: "files (world_after r) =
             (files w2)(stateFile this \<mapsto> JSON_stringify rt (state (object_after r)))"
      and dl: "dirs (world_after r) = dirs w2"
      unfolding r_def archivePath_def destinationFile_def by blast
    have f1: "files w1 = files w" using ensure_dir_files [OF dir] by simp
    have src1: "existsSync w1 sourceFile" using mv by (rule renameSync_exists)
    have src: "existsSync w sourceFile"
    proof (rule ccontr)
      assume "\<not> existsSync w sourceFile"
      from missing [OF this] ret show False by simp
    qed
    have dst: "files w2 destinationFile = files w sourceFile"
      using renameSync_destination(1) [OF mv] f1 by simp
    have dst_ex: "existsSync (world_after r) destinationFile"
      using renameSync_destination(2) [OF mv] by (auto simp: existsSync_def fl dl)
    have gone: "files w2 sourceFile = None
        \<and> (files w sourceFile = None \<longrightarrow> sourceFile \<notin> dirs w2)"
      if "sourceFile \<noteq> destinationFile"
      using renameSync_source_gone [OF mv that] f1 by simp
    show ?thesis
      using p src ent dst dst_ex gone by (simp add: st fl dl obj_get_obj_set)
  qed
  have moved: "obj_get (archived_files (state (object_after r))) category =
      Some (entries @
        [\<lparr>call_id = callId, original_filename = basename sourceFile,
          archive_path = destinationFile, archived_at = now\<rparr>])"
    if "ensure_dir w archivePath = Inr w1"
      and "renameSync w1 sourceFile destinationFile = Inr w2"
      and "obj_get (archived_files (state this)) category = Some entries"
    for w1 w2 entries
    using archiveFile_moved [OF that [unfolded archivePath_def destinationFile_def]]
    unfolding r_def archivePath_def destinationFile_def
    by (simp add: obj_get_obj_set)
  from never missing failed returned moved show ?thesis by blast
qed

text \<open>A transcript is moved into the archive of 2 January 2025 and recorded; a file
  that does not exist gives \<open>null\<close> and leaves document and files alone.\<close>

theorem archiveFile_outcomes_witness:
  "(let moved = archiveFile null_runtime ''2025-01-02T09:30:00.000Z''
                  ''/base/output/transcripts/B1_C1.txt'' ''transcripts'' (Some ''C1'')
                  (transcript_disk, fresh);
        missing = archiveFile null_runtime ''2025-01-02T09:30:00.000Z''
                  ''/base/output/transcripts/B1_C2.txt'' ''transcripts'' (Some ''C2'')
                  (transcript_disk, fresh)
    in result_of moved = Inr (Some ''/base/archive/transcripts/2025-01-02/B1_C1.txt'')
     \<and> files (world_after moved) ''/base/output/transcripts/B1_C1.txt'' = None
     \<and> files (world_after moved) ''/base/archive/transcripts/2025-01-02/B1_C1.txt'' =
          Some ''Speaker A: hello''
     \<and> obj_get (archived_files (state (object_after moved))) ''transcripts'' =
          Some [\<lparr>call_id = Some ''C1'', original_filename = ''B1_C1.txt'',
                 archive_path = ''/base/archive/transcripts/2025-01-02/B1_C1.txt'',
                 archived_at = ''2025-01-02T09:30:00.000Z''\<rparr>]
     \<and> result_of missing = Inr None
     \<and> state (object_after missing) = state fresh
     \<and> files (world_after missing) = files transcript_disk)"
proof -
  have none: "\<not> existsSync transcript_disk ''/base/output/transcripts/B1_C2.txt''"
    by (simp add: transcript_disk_def existsSync_def)
  from archiveFile_outcomes [of null_runtime "''2025-01-02T09:30:00.000Z''"
      "''/base/output/transcripts/B1_C2.txt''" "''transcripts''" "Some ''C2''"
      transcript_disk fresh] none
  have missing: "result_of (archiveFile null_runtime ''2025-01-02T09:30:00.000Z''
                  ''/base/output/transcripts/B1_C2.txt'' ''transcripts'' (Some ''C2'')
                  (transcript_disk, fresh)) = Inr None
     \<and> state (object_after (archiveFile null_runtime ''2025-01-02T09:30:00.000Z''
                  ''/base/output/transcripts/B1_C2.txt'' ''transcripts'' (Some ''C2'')
                  (transcript_disk, fresh))) = state fresh
     \<and> files (world_after (archiveFile null_runtime ''2025-01-02T09:30:00.000Z''
                  ''/base/output/transcripts/B1_C2.txt'' ''transcripts'' (Some ''C2'')
                  (transcript_disk, fresh))) = files transcript_disk"
    by blast
  show ?thesis
    unfolding Let_def
    using missing
    by (simp add: archive_transcript result_of_def world_after_def object_after_def
          js_object_eval)
qed

text \<open>
  The two exceptions on the source path are needed. A transcript that already lies at
  its archive destination is moved onto itself: the call returns the path and records
  an entry, and the file is where it was.
\<close>

lemma archiveFile_onto_itself:
  "result_of archived_again = Inr (Some ''/base/archive/transcripts/2025-01-01/B1_C1.txt'')
   \<and> files (world_after archived_again) ''/base/archive/transcripts/2025-01-01/B1_C1.txt'' =
       Some ''Speaker A: hello''
   \<and> obj_get (archived_files (state (object_after archived_again))) ''transcripts'' =
       Some [\<lparr>call_id = Some ''C1'', original_filename = ''B1_C1.txt'',
              archive_path = ''/base/archive/transcripts/2025-01-01/B1_C1.txt'',
              archived_at = ''2025-01-01T18:00:00.000Z''\<rparr>]"
  by (simp add: archived_again_def archiveFile_def Let_def fs_eval saveState_def
        archived_disk_def js_object_eval example_eval result_of_def world_after_def
        object_after_def)

end
